theory Spec2Isabelle
  imports Main "HOL-Library.Sublist"
begin

section \<open>Go strings, runes and UTF-8\<close>

text \<open>
  A Go string is a sequence of bytes: \<open>string\<close> (a \<open>char list\<close>, one \<open>char\<close> per byte).
  The scanner of package \<open>fmt\<close> reads the input rune by rune, so the bytes are decoded
  as UTF-8 the way \<open>utf8.DecodeRune\<close> does: a byte that starts no valid encoding is read
  as the rune \<open>RuneError\<close> of width 1. Bytes and runes are natural numbers here.
\<close>

definition RuneError :: nat where
  "RuneError = 0xFFFD"

definition MaxRune :: nat where
  "MaxRune = 0x10FFFF"

text \<open>The table \<open>first\<close> of package \<open>utf8\<close>: the length of the sequence a lead byte
  announces (0 for a byte that cannot start a sequence) and the range accepted for the
  second byte.\<close>

definition seqSize :: "nat \<Rightarrow> nat" where
  "seqSize p0 =
     (if p0 < 0x80 then 1
      else if p0 < 0xC2 then 0
      else if p0 < 0xE0 then 2
      else if p0 < 0xF0 then 3
      else if p0 < 0xF5 then 4
      else 0)"

definition acceptLo :: "nat \<Rightarrow> nat" where
  "acceptLo p0 = (if p0 = 0xE0 then 0xA0 else if p0 = 0xF0 then 0x90 else 0x80)"

definition acceptHi :: "nat \<Rightarrow> nat" where
  "acceptHi p0 = (if p0 = 0xED then 0x9F else if p0 = 0xF4 then 0x8F else 0xBF)"

definition contByte :: "nat \<Rightarrow> bool" where
  "contByte b \<longleftrightarrow> 0x80 \<le> b \<and> b \<le> 0xBF"

text \<open>\<open>utf8.DecodeRune\<close>: the first rune of the bytes and its width in bytes.\<close>

definition DecodeRune :: "nat list \<Rightarrow> nat \<times> nat" where
  "DecodeRune p =
     (case p of
        [] \<Rightarrow> (RuneError, 0)
      | p0 # _ \<Rightarrow>
          if seqSize p0 = 1 then (p0, 1)
          else if seqSize p0 = 0 then (RuneError, 1)
          else if length p < seqSize p0 then (RuneError, 1)
          else if p ! 1 < acceptLo p0 \<or> acceptHi p0 < p ! 1 then (RuneError, 1)
          else if seqSize p0 \<le> 2 then ((p0 mod 0x20) * 0x40 + (p ! 1) mod 0x40, 2)
          else if \<not> contByte (p ! 2) then (RuneError, 1)
          else if seqSize p0 \<le> 3 then
            ((p0 mod 0x10) * 0x1000 + ((p ! 1) mod 0x40) * 0x40 + (p ! 2) mod 0x40, 3)
          else if \<not> contByte (p ! 3) then (RuneError, 1)
          else ((p0 mod 8) * 0x40000 + ((p ! 1) mod 0x40) * 0x1000
                  + ((p ! 2) mod 0x40) * 0x40 + (p ! 3) mod 0x40, 4))"

text \<open>\<open>utf8.AppendRune\<close>: the bytes of a rune; a surrogate or a value beyond
  \<open>MaxRune\<close> is written as \<open>RuneError\<close>.\<close>

definition AppendRune :: "nat \<Rightarrow> nat list" where
  "AppendRune r =
     (if r \<le> 0x7F then [r]
      else if r \<le> 0x7FF then [0xC0 + r div 0x40, 0x80 + r mod 0x40]
      else if r > MaxRune \<or> (0xD800 \<le> r \<and> r \<le> 0xDFFF) then [0xEF, 0xBF, 0xBD]
      else if r \<le> 0xFFFF then
        [0xE0 + r div 0x1000, 0x80 + (r div 0x40) mod 0x40, 0x80 + r mod 0x40]
      else [0xF0 + r div 0x40000, 0x80 + (r div 0x1000) mod 0x40,
            0x80 + (r div 0x40) mod 0x40, 0x80 + r mod 0x40])"

text \<open>\<open>utf8.ValidRune\<close>: the code points that have an encoding.\<close>

definition ValidRune :: "nat \<Rightarrow> bool" where
  "ValidRune r \<longleftrightarrow> r \<le> MaxRune \<and> \<not> (0xD800 \<le> r \<and> r \<le> 0xDFFF)"

text \<open>The runes of a byte sequence, as successive calls of \<open>ReadRune\<close> deliver them.\<close>

function runes :: "nat list \<Rightarrow> nat list" where
  "runes [] = []"
| "runes (b # bs) = fst (DecodeRune (b # bs)) # runes (drop (snd (DecodeRune (b # bs))) (b # bs))"
  by pat_completeness auto

termination runes
proof (relation "measure length")
  show "wf (measure length)" by simp
next
  fix b :: nat and bs :: "nat list"
  have "0 < snd (DecodeRune (b # bs))" by (simp add: DecodeRune_def)
  then show "(drop (snd (DecodeRune (b # bs))) (b # bs), b # bs) \<in> measure length"
    by simp
qed

definition bytes :: "string \<Rightarrow> nat list" where
  "bytes s = map of_char s"

definition runesToString :: "nat list \<Rightarrow> string" where
  "runesToString rs = map char_of (concat (map AppendRune rs))"

section \<open>The scanner of package fmt on the format of the locale parser\<close>

text \<open>
  The parser is one call of \<open>fmt.Sscanf\<close> with the format \<open>%2s_%2s\<close>. The functions of
  this section are those of Go's standard library (\<open>fmt/scan.go\<close>) that the call runs,
  with their names: \<open>doScanf\<close> handles the verb \<open>%2s\<close> (skip space, set the limit of the
  operand to two more runes, \<open>convertString\<close>), then the literal \<open>_\<close> (\<open>advance\<close>), then
  \<open>%2s\<close> again. A panic of the scanner, which \<open>errorHandler\<close> turns into the returned
  error, is the result \<open>Inl\<close>.
\<close>

text \<open>
  The values of Go's type \<open>error\<close> that the parser can return: the two sentinels of
  package \<open>io\<close>, and an error made from a message by \<open>errors.New\<close> or \<open>fmt.Errorf\<close>.
  \<open>Error\<close> is the method giving the message.
\<close>

datatype error = EOF | ErrUnexpectedEOF | errorString string

fun Error :: "error \<Rightarrow> string" where
  "Error EOF = ''EOF''"
| "Error ErrUnexpectedEOF = ''unexpected EOF''"
| "Error (errorString m) = m"

definition hugeWid :: nat where
  "hugeWid = 2 ^ 30"

text \<open>\<open>isSpace\<close>: the table \<open>space\<close> of the scanner.\<close>

definition isSpace :: "nat \<Rightarrow> bool" where
  "isSpace r \<longleftrightarrow>
     (0x9 \<le> r \<and> r \<le> 0xD) \<or> r = 0x20 \<or> r = 0x85 \<or> r = 0xA0 \<or> r = 0x1680
     \<or> (0x2000 \<le> r \<and> r \<le> 0x200A) \<or> r = 0x2028 \<or> r = 0x2029 \<or> r = 0x202F
     \<or> r = 0x205F \<or> r = 0x3000"

text \<open>
  The scan state is the number \<open>c\<close> of runes read so far (field \<open>count\<close>) and the runes
  not yet read; \<open>ReadRune\<close> reports end of input once \<open>count\<close> reaches the limit \<open>lim\<close>
  (field \<open>argLimit\<close>). \<open>peek\<close> tells whether the next rune is a newline.
\<close>

definition peek :: "nat \<Rightarrow> nat \<Rightarrow> nat list \<Rightarrow> bool" where
  "peek lim c rs = (c < lim \<and> (case rs of [] \<Rightarrow> False | r # _ \<Rightarrow> r = 0x0A))"

text \<open>\<open>SkipSpace\<close> in the mode of \<open>Sscanf\<close> (\<open>nlIsSpace\<close> is false): a newline is an
  error, other space is skipped.\<close>

fun SkipSpace :: "nat \<Rightarrow> nat \<Rightarrow> nat list \<Rightarrow> error + (nat \<times> nat list)" where
  "SkipSpace lim c [] = Inr (c, [])"
| "SkipSpace lim c (r # rs) =
     (if lim \<le> c then Inr (c, r # rs)
      else if r = 0x0D \<and> peek lim (c + 1) rs then SkipSpace lim (c + 1) rs
      else if r = 0x0A then Inl (errorString ''unexpected newline'')
      else if \<not> isSpace r then Inr (c, r # rs)
      else SkipSpace lim (c + 1) rs)"

text \<open>The loop of \<open>token\<close> with the predicate \<open>notSpace\<close>: the runes up to the first
  space, the limit or the end of the input.\<close>

fun readToken :: "nat \<Rightarrow> nat \<Rightarrow> nat list \<Rightarrow> nat list \<times> (nat \<times> nat list)" where
  "readToken lim c [] = ([], (c, []))"
| "readToken lim c (r # rs) =
     (if lim \<le> c then ([], (c, r # rs))
      else if isSpace r then ([], (c, r # rs))
      else (case readToken lim (c + 1) rs of (buf, st) \<Rightarrow> (r # buf, st)))"

definition token :: "nat \<Rightarrow> nat \<Rightarrow> nat list \<Rightarrow> error + (nat list \<times> (nat \<times> nat list))" where
  "token lim c rs =
     (case SkipSpace lim c rs of
        Inl e \<Rightarrow> Inl e
      | Inr (c1, rs1) \<Rightarrow> Inr (readToken lim c1 rs1))"

text \<open>\<open>notEOF\<close>: there must be a rune to read.\<close>

definition notEOF :: "nat \<Rightarrow> nat \<Rightarrow> nat list \<Rightarrow> bool" where
  "notEOF lim c rs \<longleftrightarrow> c < lim \<and> rs \<noteq> []"

text \<open>\<open>convertString\<close> for the verb \<open>%s\<close>: skip space, fail with \<open>io.EOF\<close> at the end of
  the input, else return the next word.\<close>

definition convertString :: "nat \<Rightarrow> nat \<Rightarrow> nat list \<Rightarrow> error + (string \<times> (nat \<times> nat list))" where
  "convertString lim c rs =
     (case SkipSpace lim c rs of
        Inl e \<Rightarrow> Inl e
      | Inr (c1, rs1) \<Rightarrow>
          if \<not> notEOF lim c1 rs1 then Inl EOF
          else (case token lim c1 rs1 of
                  Inl e \<Rightarrow> Inl e
                | Inr (buf, st) \<Rightarrow> Inr (runesToString buf, st)))"

text \<open>One verb \<open>%2s\<close> of \<open>doScanf\<close>: space before the operand is skipped under the
  limit of the whole scan, then the operand is read under a limit of two more runes.\<close>

definition scanVerb2s :: "nat \<Rightarrow> nat list \<Rightarrow> error + (string \<times> (nat \<times> nat list))" where
  "scanVerb2s c rs =
     (case SkipSpace hugeWid c rs of
        Inl e \<Rightarrow> Inl e
      | Inr (c1, rs1) \<Rightarrow> convertString (min hugeWid (c1 + 2)) c1 rs1)"

text \<open>The literal \<open>_\<close> of the format, in \<open>advance\<close>: the next rune must be there and be
  an underscore.\<close>

definition advanceUnderscore :: "nat \<Rightarrow> nat list \<Rightarrow> error + (nat \<times> nat list)" where
  "advanceUnderscore c rs =
     (if hugeWid \<le> c then Inl ErrUnexpectedEOF
      else (case rs of
              [] \<Rightarrow> Inl ErrUnexpectedEOF
            | r # rs' \<Rightarrow>
                if r = 0x5F then Inr (c + 1, rs')
                else Inl (errorString ''input does not match format'')))"

text \<open>
  \<open>fmt.Sscanf(locale, "%2s_%2s", &lang, &local)\<close>: the number of operands scanned, the
  error, and the values of \<open>lang\<close> and \<open>local\<close> after the call (both are empty strings
  before it).
\<close>

definition Sscanf :: "string \<Rightarrow> (nat \<times> error option) \<times> (string \<times> string)" where
  "Sscanf locale =
     (case scanVerb2s 0 (runes (bytes locale)) of
        Inl e \<Rightarrow> ((0, Some e), ([], []))
      | Inr (lang, (c1, rs1)) \<Rightarrow>
          (case advanceUnderscore c1 rs1 of
             Inl e \<Rightarrow> ((1, Some e), (lang, []))
           | Inr (c2, rs2) \<Rightarrow>
               (case scanVerb2s c2 rs2 of
                  Inl e \<Rightarrow> ((1, Some e), (lang, []))
                | Inr (local, st) \<Rightarrow> ((2, None), (lang, local)))))"

section \<open>The locale parser\<close>

text \<open>\<open>parseLocaleString\<close>: \<open>Inl err\<close> stands for the return \<open>("", "", err)\<close> and
  \<open>Inr (lang, local)\<close> for \<open>(lang, local, nil)\<close>.\<close>

definition parseLocaleString :: "string \<Rightarrow> error + (string \<times> string)" where
  "parseLocaleString locale =
     (case Sscanf locale of
        ((n, err), (lang, local)) \<Rightarrow>
          (case err of
             Some e \<Rightarrow> Inl e
           | None \<Rightarrow>
               if n \<noteq> 2 then Inl (errorString (''unparsable locale string '' @ locale))
               else Inr (lang, local)))"

text \<open>
  The shape of the inputs the parser accepts, for the statement of its failures. White
  space other than a newline is \<open>blank\<close>. After leading blanks come two characters that
  are not white space, an underscore and, after optional blanks, one more character that
  is not white space; the scanner reads all of this within its limit of \<open>hugeWid\<close>
  characters.
\<close>

definition blank :: "nat \<Rightarrow> bool" where
  "blank r \<longleftrightarrow> isSpace r \<and> r \<noteq> 0x0A"

definition localeShape :: "nat list \<Rightarrow> bool" where
  "localeShape rs =
     (case dropWhile blank rs of
        a # b # u # rest \<Rightarrow>
          \<not> isSpace a \<and> \<not> isSpace b \<and> u = 0x5F
          \<and> (case dropWhile blank rest of
                 [] \<Rightarrow> False
               | c # _ \<Rightarrow>
                   \<not> isSpace c
                   \<and> length (takeWhile blank rs) + 3 + length (takeWhile blank rest) < hugeWid)
      | _ \<Rightarrow> False)"

section \<open>The context\<close>

text \<open>
  \<open>Locale\<close> is \<open>map[string]string\<close> and \<open>Language\<close> is \<open>map[string]Locale\<close>. A value of
  a Go map type is \<open>nil\<close> or a reference to a map object. The package never writes to a
  \<open>Locale\<close> object, so a \<open>Locale\<close> value is modelled by \<open>None\<close> (\<open>nil\<close>) or the content of
  the object. \<open>AddLocale\<close> writes to \<open>Language\<close> objects in place while \<open>preferedLang\<close> may
  refer to the same object, so a \<open>Language\<close> value is \<open>None\<close> (\<open>nil\<close>) or the address of an
  object in the store \<open>mem\<close>; \<open>fresh\<close> is the next address to allocate.
\<close>

type_synonym Locale = "(string \<rightharpoonup> string) option"

type_synonym addr = nat

type_synonym Language = "addr option"

type_synonym LanguageObj = "string \<rightharpoonup> Locale"

record InterContext =
  languages :: "(string \<rightharpoonup> Language) option"
  prefered :: Locale
  preferedLang :: Language

record state =
  ctx :: InterContext
  mem :: "addr \<Rightarrow> LanguageObj"
  fresh :: addr

text \<open>A function that panics does not return.\<close>

datatype 'a outcome = Returned 'a | Panicked string

text \<open>Indexing a Go map: the zero value of the element type where the key is absent
  or the map is \<open>nil\<close>.\<close>

definition indexLocale :: "Locale \<Rightarrow> string \<Rightarrow> string" where
  "indexLocale l text =
     (case l of
        None \<Rightarrow> []
      | Some m \<Rightarrow> (case m text of None \<Rightarrow> [] | Some v \<Rightarrow> v))"

definition indexObj :: "LanguageObj \<Rightarrow> string \<Rightarrow> Locale" where
  "indexObj m local = (case m local of None \<Rightarrow> None | Some l \<Rightarrow> l)"

definition indexLanguage :: "state \<Rightarrow> Language \<Rightarrow> string \<Rightarrow> Locale" where
  "indexLanguage s langMap local =
     (case langMap of None \<Rightarrow> None | Some a \<Rightarrow> indexObj (mem s a) local)"

definition indexLanguages :: "InterContext \<Rightarrow> string \<Rightarrow> Language" where
  "indexLanguages c lang =
     (case languages c of
        None \<Rightarrow> None
      | Some m \<Rightarrow> (case m lang of None \<Rightarrow> None | Some v \<Rightarrow> v))"

text \<open>\<open>Init\<close>.\<close>

definition Init :: "state \<Rightarrow> state" where
  "Init s = s\<lparr>ctx := (ctx s)\<lparr>languages := Some Map.empty\<rparr>\<rparr>"

text \<open>\<open>AddLocale\<close>. Assigning to an entry of the \<open>nil\<close> map \<open>ctx.languages\<close> (a context
  without \<open>Init\<close>) panics.\<close>

definition AddLocale :: "string \<Rightarrow> Locale \<Rightarrow> state \<Rightarrow> (error option \<times> state) outcome" where
  "AddLocale locale entries s =
     (case parseLocaleString locale of
        Inl err \<Rightarrow> Returned (Some err, s)
      | Inr (lang, local) \<Rightarrow>
          (case indexLanguages (ctx s) lang of
             None \<Rightarrow>
               (case languages (ctx s) of
                  None \<Rightarrow> Panicked ''assignment to entry in nil map''
                | Some m \<Rightarrow>
                    Returned (None,
                      s\<lparr>ctx := (ctx s)\<lparr>languages := Some (m(lang \<mapsto> Some (fresh s)))\<rparr>,
                        mem := (mem s)(fresh s := [local \<mapsto> entries]),
                        fresh := fresh s + 1\<rparr>))
           | Some a \<Rightarrow>
               Returned (None, s\<lparr>mem := (mem s)(a := (mem s a)(local \<mapsto> entries))\<rparr>)))"

text \<open>\<open>SetPreferedLocale\<close>.\<close>

definition SetPreferedLocale :: "string \<Rightarrow> state \<Rightarrow> error option \<times> state" where
  "SetPreferedLocale locale s =
     (case parseLocaleString locale of
        Inl err \<Rightarrow> (Some err, s)
      | Inr (lang, local) \<Rightarrow>
          (let s1 = s\<lparr>ctx := (ctx s)\<lparr>preferedLang := indexLanguages (ctx s) lang\<rparr>\<rparr>
           in if preferedLang (ctx s1) \<noteq> None
              then (None, s1\<lparr>ctx := (ctx s1)\<lparr>prefered :=
                                 indexLanguage s1 (preferedLang (ctx s1)) local\<rparr>\<rparr>)
              else (None, s1)))"

text \<open>\<open>os.Getenv\<close>: the value of the variable, empty when it is not set.\<close>

definition Getenv :: "(string \<rightharpoonup> string) \<Rightarrow> string \<Rightarrow> string" where
  "Getenv env k = (case env k of None \<Rightarrow> [] | Some v \<Rightarrow> v)"

text \<open>\<open>AutoSetPreferedLocale\<close>, in the environment \<open>env\<close> of the process.\<close>

definition AutoSetPreferedLocale :: "(string \<rightharpoonup> string) \<Rightarrow> state \<Rightarrow> error option \<times> state" where
  "AutoSetPreferedLocale env s =
     (case SetPreferedLocale (Getenv env ''LC_ALL'') s of
        (None, s1) \<Rightarrow> (None, s1)
      | (Some err, s1) \<Rightarrow> SetPreferedLocale (Getenv env ''LANG'') s1)"

text \<open>
  A \<open>range\<close> loop over a map visits every entry once, in an order the language leaves
  open: the order is the list \<open>ord\<close> of the keys, an argument of the functions that loop.
  \<open>rangeFirst\<close> is the loop of \<open>Get\<close> and \<open>GetFromLocale\<close>: \<open>Some localTxt\<close> when it returns
  from inside, \<open>None\<close> when it runs to the end.
\<close>

definition rangeOrder :: "LanguageObj \<Rightarrow> string list \<Rightarrow> bool" where
  "rangeOrder m ord \<longleftrightarrow> distinct ord \<and> set ord = dom m"

fun rangeFirst :: "LanguageObj \<Rightarrow> string \<Rightarrow> string list \<Rightarrow> string option" where
  "rangeFirst m text [] = None"
| "rangeFirst m text (k # ks) =
     (case m k of
        None \<Rightarrow> rangeFirst m text ks
      | Some l \<Rightarrow>
          (let localTxt = indexLocale l text
           in if localTxt \<noteq> [] then Some localTxt else rangeFirst m text ks))"

text \<open>\<open>Get\<close>.\<close>

definition Get :: "string list \<Rightarrow> string \<Rightarrow> state \<Rightarrow> string \<times> state" where
  "Get ord text s =
     (case preferedLang (ctx s) of
        None \<Rightarrow> (text, s)
      | Some a \<Rightarrow>
          if prefered (ctx s) \<noteq> None \<and> indexLocale (prefered (ctx s)) text \<noteq> []
          then (indexLocale (prefered (ctx s)) text, s)
          else (case rangeFirst (mem s a) text ord of
                  Some localTxt \<Rightarrow> (localTxt, s)
                | None \<Rightarrow> (text, s)))"

text \<open>\<open>GetFromLocale\<close>.\<close>

definition GetFromLocale ::
  "string list \<Rightarrow> string \<Rightarrow> string \<Rightarrow> state \<Rightarrow> (string \<times> error option) \<times> state" where
  "GetFromLocale ord text locale s =
     (case parseLocaleString locale of
        Inl err \<Rightarrow> ((text, Some err), s)
      | Inr (lang, local) \<Rightarrow>
          (case indexLanguages (ctx s) lang of
             None \<Rightarrow> ((text, None), s)
           | Some a \<Rightarrow>
               (case indexObj (mem s a) local of
                  None \<Rightarrow>
                    (case rangeFirst (mem s a) text ord of
                       Some localTxt \<Rightarrow> ((localTxt, None), s)
                     | None \<Rightarrow> ((text, None), s))
                | Some localMap \<Rightarrow>
                    if indexLocale (Some localMap) text = [] then ((text, None), s)
                    else ((indexLocale (Some localMap) text, None), s))))"

text \<open>The value a table of a group holds for a key, empty when there is none.\<close>

definition tableText :: "LanguageObj \<Rightarrow> string \<Rightarrow> string \<Rightarrow> string" where
  "tableText m text k = indexLocale (indexObj m k) text"

text \<open>The context of the tests: \<open>Init\<close>, then \<open>pt_BR\<close> added with one entry; and the same
  context after \<open>SetPreferedLocale("pt_BR")\<close>.\<close>

definition emptyContext :: state where
  "emptyContext =
     \<lparr>ctx = \<lparr>languages = None, prefered = None, preferedLang = None\<rparr>,
      mem = (\<lambda>a. Map.empty), fresh = 0\<rparr>"

definition testingContext :: state where
  "testingContext =
     \<lparr>ctx = \<lparr>languages = Some [''pt'' \<mapsto> Some 0], prefered = None, preferedLang = None\<rparr>,
      mem = (\<lambda>a. Map.empty)(0 := [''BR'' \<mapsto> Some [''hello'' \<mapsto> ''ola'']]), fresh = 1\<rparr>"

definition preferedContext :: state where
  "preferedContext =
     \<lparr>ctx = \<lparr>languages = Some [''pt'' \<mapsto> Some 0],
             prefered = Some [''hello'' \<mapsto> ''ola''], preferedLang = Some 0\<rparr>,
      mem = (\<lambda>a. Map.empty)(0 := [''BR'' \<mapsto> Some [''hello'' \<mapsto> ''ola'']]), fresh = 1\<rparr>"

text \<open>A group with two tables.\<close>

definition twoRegions :: state where
  "twoRegions =
     \<lparr>ctx = \<lparr>languages = Some [''pt'' \<mapsto> Some 0], prefered = None, preferedLang = None\<rparr>,
      mem = (\<lambda>a. Map.empty)(0 := [''BR'' \<mapsto> Some [''hello'' \<mapsto> ''ola''],
                                  ''PT'' \<mapsto> Some [''bye'' \<mapsto> ''adeus'']]), fresh = 1\<rparr>"

text \<open>The context of the tests after \<open>AddLocale("pt_PT", nil)\<close>: the group holds the
  \<open>nil\<close> table at the region \<open>PT\<close>.\<close>

definition nilRegion :: state where
  "nilRegion =
     \<lparr>ctx = \<lparr>languages = Some [''pt'' \<mapsto> Some 0], prefered = None, preferedLang = None\<rparr>,
      mem = (\<lambda>a. Map.empty)(0 := [''BR'' \<mapsto> Some [''hello'' \<mapsto> ''ola''],
                                  ''PT'' \<mapsto> None]), fresh = 1\<rparr>"

section \<open>Evaluating the parser\<close>

lemmas scan_defs =
  parseLocaleString_def Sscanf_def scanVerb2s_def bytes_def DecodeRune_def seqSize_def
  hugeWid_def isSpace_def convertString_def notEOF_def token_def advanceUnderscore_def
  runesToString_def AppendRune_def peek_def char_of_eq_iff acceptLo_def acceptHi_def
  contByte_def RuneError_def MaxRune_def

lemma parse_pt_BR: "parseLocaleString ''pt_BR'' = Inr (''pt'', ''BR'')"
  by (simp add: scan_defs)

lemma parse_pt_BR_UTF8: "parseLocaleString ''pt_BR.UTF-8'' = Inr (''pt'', ''BR'')"
  by (simp add: scan_defs)

lemma parse_en_US: "parseLocaleString ''en_US'' = Inr (''en'', ''US'')"
  by (simp add: scan_defs)

lemma parse_pt_PT: "parseLocaleString ''pt_PT'' = Inr (''pt'', ''PT'')"
  by (simp add: scan_defs)

lemma parse_abc: "parseLocaleString ''abc'' = Inl (errorString ''input does not match format'')"
  by (simp add: scan_defs)

lemma parse_empty: "parseLocaleString [] = Inl EOF"
  by (simp add: scan_defs)

section \<open>UTF-8: decoding what was encoded\<close>

lemma rune_split3: "(r::nat) = (r div 4096) * 4096 + ((r div 64) mod 64) * 64 + r mod 64"
proof -
  have "r mod 4096 = 64 * (r div 64 mod 64) + r mod 64"
    using mod_mult2_eq[of r 64 64] by simp
  moreover have "r = (r div 4096) * 4096 + r mod 4096" by simp
  ultimately show ?thesis by simp
qed

lemma rune_split4: "(r::nat) = (r div 262144) * 262144 + ((r div 4096) mod 64) * 4096 + ((r div 64) mod 64) * 64 + r mod 64"
proof -
  have a: "r mod 4096 = 64 * (r div 64 mod 64) + r mod 64"
    using mod_mult2_eq[of r 64 64] by simp
  have b: "r mod 262144 = 4096 * (r div 4096 mod 64) + r mod 4096"
    using mod_mult2_eq[of r 4096 64] by simp
  have "r = (r div 262144) * 262144 + r mod 262144" by simp
  then show ?thesis using a b by simp
qed

lemma lead2_mod: "q < 32 \<Longrightarrow> (192 + q) mod 32 = (q::nat)"
proof -
  assume q: "q < 32"
  have "(q + 6 * 32) mod 32 = q mod 32" by (rule mod_mult_self1)
  then show ?thesis using q by (simp add: add.commute)
qed
lemma cont_mod: "q < 64 \<Longrightarrow> (128 + q) mod 64 = (q::nat)"
proof -
  assume q: "q < 64"
  have "(q + 2 * 64) mod 64 = q mod 64" by (rule mod_mult_self1)
  then show ?thesis using q by (simp add: add.commute)
qed
lemma lead3_mod: "q < 16 \<Longrightarrow> (224 + q) mod 16 = (q::nat)"
proof -
  assume q: "q < 16"
  have "(q + 14 * 16) mod 16 = q mod 16" by (rule mod_mult_self1)
  then show ?thesis using q by (simp add: add.commute)
qed
lemma lead4_mod: "q < 5 \<Longrightarrow> (240 + q) mod 8 = (q::nat)"
proof -
  assume q: "q < 5"
  have "(q + 30 * 8) mod 8 = q mod 8" by (rule mod_mult_self1)
  then show ?thesis using q by (simp add: add.commute)
qed

lemma DecodeRune_1: "r \<le> 0x7F \<Longrightarrow> DecodeRune (r # rest) = (r, 1)"
  by (simp add: DecodeRune_def seqSize_def)

lemma DecodeRune_2:
  assumes "0x80 \<le> r" "r \<le> 0x7FF"
  shows "DecodeRune ((0xC0 + r div 0x40) # (0x80 + r mod 0x40) # rest) = (r, 2)"
proof -
  define q where "q = r div 64"
  define m where "m = r mod 64"
  have m: "m < 64" by (simp add: m_def)
  have r: "r = q * 64 + m" by (simp add: q_def m_def)
  have q: "2 \<le> q" "q < 32" using assms r m by linarith+
  have s: "seqSize (192 + q) = 2" using q by (simp add: seqSize_def)
  have lo: "acceptLo (192 + q) = 128" using q by (simp add: acceptLo_def)
  have hi: "acceptHi (192 + q) = 191" using q by (simp add: acceptHi_def)
  have a: "(192 + q) mod 32 = q" using q by (simp add: lead2_mod)
  have b: "(128 + m) mod 64 = m" using m by (simp add: cont_mod)
  have "DecodeRune ((192 + q) # (128 + m) # rest) = (q * 64 + m, 2)"
    using m by (simp add: DecodeRune_def s lo hi a b)
  then have "DecodeRune ((192 + q) # (128 + m) # rest) = (r, 2)" using r by simp
  then show ?thesis unfolding q_def m_def by simp
qed

lemma DecodeRune_3:
  assumes "0x800 \<le> r" "r \<le> 0xFFFF" "\<not> (0xD800 \<le> r \<and> r \<le> 0xDFFF)"
  shows "DecodeRune ((0xE0 + r div 0x1000) # (0x80 + (r div 0x40) mod 0x40)
           # (0x80 + r mod 0x40) # rest) = (r, 3)"
proof -
  define q where "q = r div 4096"
  define n where "n = (r div 64) mod 64"
  define m where "m = r mod 64"
  have n: "n < 64" by (simp add: n_def)
  have m: "m < 64" by (simp add: m_def)
  have r: "r = q * 4096 + n * 64 + m" unfolding q_def n_def m_def by (rule rune_split3)
  have q: "q < 16" using assms r n m by linarith
  have n0: "q = 0 \<Longrightarrow> 32 \<le> n" using assms r n m by linarith
  have n13: "q = 13 \<Longrightarrow> n < 32" using assms r n m by linarith
  have s: "seqSize (224 + q) = 3" using q by (simp add: seqSize_def)
  have lo: "acceptLo (224 + q) \<le> 128 + n" using q n0 by (simp add: acceptLo_def)
  have hi: "128 + n \<le> acceptHi (224 + q)" using q n n13 by (auto simp: acceptHi_def)
  have a: "(224 + q) mod 16 = q" using q by (simp add: lead3_mod)
  have b: "(128 + n) mod 64 = n" using n by (simp add: cont_mod)
  have c: "(128 + m) mod 64 = m" using m by (simp add: cont_mod)
  have "DecodeRune ((224 + q) # (128 + n) # (128 + m) # rest) = (q * 4096 + n * 64 + m, 3)"
    using m lo hi by (simp add: DecodeRune_def s a b c contByte_def not_less)
  then have "DecodeRune ((224 + q) # (128 + n) # (128 + m) # rest) = (r, 3)" using r by simp
  then show ?thesis unfolding q_def m_def n_def by simp
qed

lemma DecodeRune_4:
  assumes "0x10000 \<le> r" "r \<le> 0x10FFFF"
  shows "DecodeRune ((0xF0 + r div 0x40000) # (0x80 + (r div 0x1000) mod 0x40)
           # (0x80 + (r div 0x40) mod 0x40) # (0x80 + r mod 0x40) # rest) = (r, 4)"
proof -
  define q where "q = r div 262144"
  define k where "k = (r div 4096) mod 64"
  define n where "n = (r div 64) mod 64"
  define m where "m = r mod 64"
  have k: "k < 64" by (simp add: k_def)
  have n: "n < 64" by (simp add: n_def)
  have m: "m < 64" by (simp add: m_def)
  have r: "r = q * 262144 + k * 4096 + n * 64 + m"
    unfolding q_def k_def n_def m_def by (rule rune_split4)
  have q: "q < 5" using assms r k n m by linarith
  have k0: "q = 0 \<Longrightarrow> 16 \<le> k" using assms r k n m by linarith
  have k4: "q = 4 \<Longrightarrow> k < 16" using assms r k n m by linarith
  have s: "seqSize (240 + q) = 4" using q by (simp add: seqSize_def)
  have lo: "acceptLo (240 + q) \<le> 128 + k" using q k0 by (simp add: acceptLo_def)
  have hi: "128 + k \<le> acceptHi (240 + q)" using q k k4 by (auto simp: acceptHi_def)
  have a: "(240 + q) mod 8 = q" using q by (simp add: lead4_mod)
  have b: "(128 + k) mod 64 = k" using k by (simp add: cont_mod)
  have c: "(128 + n) mod 64 = n" using n by (simp add: cont_mod)
  have d: "(128 + m) mod 64 = m" using m by (simp add: cont_mod)
  have "DecodeRune ((240 + q) # (128 + k) # (128 + n) # (128 + m) # rest)
      = (q * 262144 + k * 4096 + n * 64 + m, 4)"
    using m n lo hi by (simp add: DecodeRune_def s a b c d contByte_def not_less)
  then have "DecodeRune ((240 + q) # (128 + k) # (128 + n) # (128 + m) # rest) = (r, 4)"
    using r by simp
  then show ?thesis unfolding q_def m_def n_def k_def by simp
qed

lemma DecodeRune_AppendRune:
  assumes "ValidRune r"
  shows "DecodeRune (AppendRune r @ rest) = (r, length (AppendRune r))"
proof -
  consider "r \<le> 0x7F" | "0x80 \<le> r" "r \<le> 0x7FF" | "0x800 \<le> r" "r \<le> 0xFFFF" | "0x10000 \<le> r"
    by linarith
  then show ?thesis
  proof cases
    case 1
    then show ?thesis by (simp add: AppendRune_def DecodeRune_1)
  next
    case 2
    have e: "AppendRune r = [0xC0 + r div 0x40, 0x80 + r mod 0x40]"
      using 2 by (simp add: AppendRune_def)
    show ?thesis using DecodeRune_2[OF 2, of rest] by (simp add: e)
  next
    case 3
    have ns: "\<not> (0xD800 \<le> r \<and> r \<le> 0xDFFF)" using assms by (simp add: ValidRune_def)
    have e: "AppendRune r
        = [0xE0 + r div 0x1000, 0x80 + (r div 0x40) mod 0x40, 0x80 + r mod 0x40]"
    proof -
      have "r < 0xD800 \<or> 0xDFFF < r" using ns by linarith
      then show ?thesis
      proof
        assume "r < 0xD800"
        then show ?thesis using 3 by (simp add: AppendRune_def MaxRune_def)
      next
        assume "0xDFFF < r"
        then show ?thesis using 3 by (simp add: AppendRune_def MaxRune_def)
      qed
    qed
    show ?thesis using DecodeRune_3[OF 3 ns, of rest] by (simp add: e)
  next
    case 4
    have le: "r \<le> 0x10FFFF" using assms by (simp add: ValidRune_def MaxRune_def)
    have e: "AppendRune r
        = [0xF0 + r div 0x40000, 0x80 + (r div 0x1000) mod 0x40,
           0x80 + (r div 0x40) mod 0x40, 0x80 + r mod 0x40]"
      using 4 le unfolding AppendRune_def MaxRune_def by simp
    show ?thesis using DecodeRune_4[OF 4 le, of rest] by (simp add: e)
  qed
qed

lemma AppendRune_nonempty: "AppendRune r \<noteq> []"
  by (simp add: AppendRune_def)

lemma runes_AppendRune:
  assumes "ValidRune r"
  shows "runes (AppendRune r @ rest) = r # runes rest"
proof -
  obtain b bs where bs: "AppendRune r = b # bs"
    using AppendRune_nonempty by (cases "AppendRune r") auto
  have "runes ((b # bs) @ rest) = r # runes rest"
    using DecodeRune_AppendRune[OF assms, of rest] by (simp add: bs)
  then show ?thesis by (simp add: bs)
qed

lemma AppendRune_bytes: "b \<in> set (AppendRune r) \<Longrightarrow> b < 256"
  by (auto simp: AppendRune_def MaxRune_def split: if_splits)

section \<open>What the scanner accepts\<close>

lemma notSpace_not_newline: "\<not> isSpace a \<Longrightarrow> a \<noteq> 0x0A \<and> a \<noteq> 0x0D"
  by (auto simp: isSpace_def)

lemma SkipSpace_notSpace: "\<not> isSpace a \<Longrightarrow> SkipSpace lim c (a # rs) = Inr (c, a # rs)"
  using notSpace_not_newline[of a] by simp

lemma SkipSpace_limit: "lim \<le> c \<Longrightarrow> SkipSpace lim c rs = Inr (c, rs)"
  by (cases rs) simp_all

lemma readToken_limit: "lim \<le> c \<Longrightarrow> readToken lim c rs = ([], (c, rs))"
  by (cases rs) simp_all

lemma blank_CR: "blank 0x0D"
  by (simp add: blank_def isSpace_def)

lemma SkipSpace_Inr:
  "SkipSpace lim c rs = Inr (c1, rs1) \<Longrightarrow> c1 < lim \<Longrightarrow>
     rs1 = dropWhile blank rs \<and> c1 = c + length (takeWhile blank rs)
     \<and> (rs1 = [] \<or> \<not> isSpace (hd rs1))"
proof (induction lim c rs rule: SkipSpace.induct)
  case (1 lim c)
  then show ?case by simp
next
  case (2 lim c r rs)
  show ?case
  proof (cases "lim \<le> c")
    case True
    then show ?thesis using "2.prems" by simp
  next
    case False
    show ?thesis
    proof (cases "r = 0x0D \<and> peek lim (c + 1) rs")
      case True
      then have step: "SkipSpace lim (c + 1) rs = Inr (c1, rs1)"
        using "2.prems" False by simp
      have "rs1 = dropWhile blank rs \<and> c1 = c + 1 + length (takeWhile blank rs)
          \<and> (rs1 = [] \<or> \<not> isSpace (hd rs1))"
        by (rule "2.IH"(1)[OF False True step "2.prems"(2)])
      then show ?thesis using True blank_CR by (auto simp del: dropWhile_eq_Nil_conv)
    next
      case nocr: False
      show ?thesis
      proof (cases "r = 0x0A")
        case True
        then show ?thesis using "2.prems" False nocr by simp
      next
        case nonl: False
        show ?thesis
        proof (cases "isSpace r")
          case True
          then have step: "SkipSpace lim (c + 1) rs = Inr (c1, rs1)"
            using "2.prems" False nocr nonl by (auto split: if_splits)
          have nn: "\<not> \<not> isSpace r" using True by simp
          have "rs1 = dropWhile blank rs \<and> c1 = c + 1 + length (takeWhile blank rs)
              \<and> (rs1 = [] \<or> \<not> isSpace (hd rs1))"
            by (rule "2.IH"(2)[OF False nocr nonl nn step "2.prems"(2)])
          moreover have "blank r" using True nonl by (simp add: blank_def)
          ultimately show ?thesis by (auto simp del: dropWhile_eq_Nil_conv)
        next
          case False
          then have "rs1 = r # rs" "c1 = c"
            using "2.prems" \<open>\<not> lim \<le> c\<close> notSpace_not_newline[OF False] by auto
          moreover have "\<not> blank r" using False by (simp add: blank_def)
          ultimately show ?thesis using False by simp
        qed
      qed
    qed
  qed
qed

lemma SkipSpace_blank:
  "c + length (takeWhile blank rs) < lim \<Longrightarrow>
   dropWhile blank rs = [] \<or> \<not> isSpace (hd (dropWhile blank rs)) \<Longrightarrow>
   SkipSpace lim c rs = Inr (c + length (takeWhile blank rs), dropWhile blank rs)"
proof (induction rs arbitrary: c)
  case Nil
  then show ?case by simp
next
  case (Cons r rs)
  show ?case
  proof (cases "blank r")
    case True
    then have r: "isSpace r" "r \<noteq> 0x0A" by (simp_all add: blank_def)
    have "SkipSpace lim (c + 1) rs
        = Inr (c + 1 + length (takeWhile blank rs), dropWhile blank rs)"
      using Cons.IH[of "c + 1"] Cons.prems True by simp
    then show ?thesis using True r Cons.prems(1) by simp
  next
    case False
    then have "\<not> isSpace r" using Cons.prems(2) by simp
    then show ?thesis using False SkipSpace_notSpace[of r lim c rs] by simp
  qed
qed

lemma scanVerb2s_Inr:
  assumes "scanVerb2s c rs = Inr (str, (c', rs'))"
  shows "c + length (takeWhile blank rs) < hugeWid
    \<and> dropWhile blank rs \<noteq> [] \<and> \<not> isSpace (hd (dropWhile blank rs))
    \<and> ((\<exists>a b. dropWhile blank rs = a # b # rs' \<and> \<not> isSpace b
               \<and> c' = c + length (takeWhile blank rs) + 2)
       \<or> (rs' = tl (dropWhile blank rs) \<and> (hugeWid \<le> c' \<or> rs' = [] \<or> isSpace (hd rs'))))"
proof -
  obtain c1 rs1 where sk: "SkipSpace hugeWid c rs = Inr (c1, rs1)"
    using assms by (auto simp: scanVerb2s_def split: sum.splits)
  define lim where "lim = min hugeWid (c1 + 2)"
  have cs: "convertString lim c1 rs1 = Inr (str, (c', rs'))"
    using assms sk by (simp add: scanVerb2s_def lim_def)
  have c1: "c1 < hugeWid"
  proof (rule ccontr)
    assume "\<not> c1 < hugeWid"
    then have "lim \<le> c1" by (simp add: lim_def)
    then show False using cs by (simp add: convertString_def SkipSpace_limit notEOF_def)
  qed
  note sk' = SkipSpace_Inr[OF sk c1]
  have rs1: "rs1 = dropWhile blank rs" by (rule sk'[THEN conjunct1])
  have cn: "c1 = c + length (takeWhile blank rs)" by (rule sk'[THEN conjunct2, THEN conjunct1])
  have hd: "rs1 = [] \<or> \<not> isSpace (hd rs1)" by (rule sk'[THEN conjunct2, THEN conjunct2])
  have lim: "c1 < lim" "lim \<le> c1 + 2" using c1 by (simp_all add: lim_def)
  have ne: "rs1 \<noteq> []"
  proof
    assume "rs1 = []"
    then show False using cs by (simp add: convertString_def notEOF_def)
  qed
  then obtain a rest where d: "rs1 = a # rest" by (cases rs1) auto
  have a: "\<not> isSpace a" using hd d by simp
  have rt: "snd (readToken lim c1 (a # rest)) = (c', rs')"
    using cs a lim
    by (auto simp del: SkipSpace.simps readToken.simps
        simp: convertString_def d SkipSpace_notSpace notEOF_def token_def split: prod.splits)
  have rt1: "snd (readToken lim (c1 + 1) rest) = (c', rs')"
    using rt a lim by (simp split: prod.splits)
  have "(\<exists>a b. rs1 = a # b # rs' \<and> \<not> isSpace b \<and> c' = c1 + 2)
       \<or> (rs' = tl rs1 \<and> (hugeWid \<le> c' \<or> rs' = [] \<or> isSpace (hd rs')))"
  proof (cases rest)
    case Nil
    then show ?thesis using rt1 d by simp
  next
    case (Cons b rest')
    show ?thesis
    proof (cases "lim \<le> c1 + 1")
      case True
      then have "hugeWid \<le> c1 + 1" by (simp add: lim_def)
      then show ?thesis using rt1 True d Cons by simp
    next
      case nolim: False
      show ?thesis
      proof (cases "isSpace b")
        case True
        then show ?thesis using rt1 nolim d Cons by auto
      next
        case False
        have "readToken lim (c1 + 1 + 1) rest' = ([], (c1 + 1 + 1, rest'))"
          using lim by (intro readToken_limit) simp
        then have "rs' = rest'" "c' = c1 + 2"
          using rt1 nolim False Cons by (simp_all split: prod.splits)
        then show ?thesis using d Cons False by simp
      qed
    qed
  qed
  then show ?thesis using ne a d c1 unfolding rs1[symmetric] cn[symmetric] by simp
qed

lemma advanceUnderscore_Inr:
  "advanceUnderscore c rs = Inr (c2, rs2) \<Longrightarrow> c < hugeWid \<and> rs = 0x5F # rs2 \<and> c2 = c + 1"
  by (auto simp: advanceUnderscore_def split: if_splits list.splits)

lemma parse_Inr_shape:
  assumes "parseLocaleString locale = Inr (lang, local)"
  shows "localeShape (runes (bytes locale))"
proof -
  define rs where "rs = runes (bytes locale)"
  obtain l c1 rs1 where s1: "scanVerb2s 0 rs = Inr (l, (c1, rs1))"
    using assms by (auto simp: parseLocaleString_def Sscanf_def rs_def split: sum.splits prod.splits)
  obtain c2 rs2 where u: "advanceUnderscore c1 rs1 = Inr (c2, rs2)"
    using assms s1 by (auto simp: parseLocaleString_def Sscanf_def rs_def split: sum.splits prod.splits)
  obtain l2 st where s2: "scanVerb2s c2 rs2 = Inr (l2, st)"
    using assms s1 u by (auto simp: parseLocaleString_def Sscanf_def rs_def split: sum.splits prod.splits)
  obtain c3 rs3 where st: "st = (c3, rs3)" by (cases st)
  have us: "c1 < hugeWid" "rs1 = 0x5F # rs2" "c2 = c1 + 1"
    using advanceUnderscore_Inr[OF u] by simp_all
  have nsp: "\<not> isSpace 0x5F" by (simp add: isSpace_def)
  from scanVerb2s_Inr[OF s1] us nsp
  obtain a b where d: "dropWhile blank rs = a # b # rs1" "\<not> isSpace b"
    "c1 = length (takeWhile blank rs) + 2" "\<not> isSpace a"
    by auto
  from scanVerb2s_Inr[OF s2[unfolded st]]
  have e: "c2 + length (takeWhile blank rs2) < hugeWid" "dropWhile blank rs2 \<noteq> []"
    "\<not> isSpace (hd (dropWhile blank rs2))" by simp_all
  obtain c r3 where r3: "dropWhile blank rs2 = c # r3" using e(2) by (cases "dropWhile blank rs2") auto
  have "localeShape rs"
    using d us e(1,3) r3 by (simp add: localeShape_def)
  then show ?thesis by (simp add: rs_def)
qed

lemma localeShape_underscore: "localeShape rs \<Longrightarrow> 0x5F \<in> set rs \<and> 4 \<le> length rs"
proof -
  assume sh: "localeShape rs"
  then obtain a b rest where d: "dropWhile blank rs = a # b # 0x5F # rest"
    "dropWhile blank rest \<noteq> []"
    by (auto simp del: dropWhile_eq_Nil_conv simp: localeShape_def split: list.splits)
  have "rest \<noteq> []" using d(2) by auto
  then have "4 \<le> length (dropWhile blank rs)" using d(1) by (cases rest) simp_all
  then have len: "4 \<le> length rs" using length_dropWhile_le[of blank rs] by linarith
  have "0x5F \<in> set (dropWhile blank rs)" using d(1) by simp
  then have "0x5F \<in> set rs" by (rule set_dropWhileD)
  then show ?thesis using len by simp
qed

section \<open>Failures of the parser\<close>

lemma mod_window:
  fixes b :: nat
  assumes "k * n \<le> b" "b < k * n + n"
  shows "b mod n = b - k * n"
proof -
  have "b = (b - k * n) + k * n" using assms by simp
  then have "b mod n = ((b - k * n) + k * n) mod n" by simp
  also have "\<dots> = (b - k * n) mod n" by (rule mod_mult_self1)
  also have "\<dots> = b - k * n" using assms by simp
  finally show ?thesis .
qed

lemma seqSize_cases: "seqSize b = 0 \<or> seqSize b = 1 \<or> seqSize b = 2 \<or> seqSize b = 3 \<or> seqSize b = 4"
  by (simp add: seqSize_def)

lemma DecodeRune_ge:
  assumes "seqSize b \<noteq> 1"
  shows "0x80 \<le> fst (DecodeRune (b # bs))"
proof -
  consider "seqSize b = 0" | "seqSize b = 2" | "seqSize b = 3" | "seqSize b = 4"
    using seqSize_cases[of b] assms by auto
  then show ?thesis
  proof cases
    case 1
    then show ?thesis by (simp add: DecodeRune_def RuneError_def)
  next
    case 2
    then have r: "0xC2 \<le> b" "b < 0xE0" by (simp_all add: seqSize_def split: if_splits)
    have "b mod 32 = b - 6 * 32" using r by (intro mod_window) simp_all
    then have "2 \<le> b mod 32" using r by simp
    then have "128 \<le> b mod 32 * 64 + x" for x by simp
    then show ?thesis using 2 by (simp add: DecodeRune_def RuneError_def)
  next
    case 3
    then have r: "0xE0 \<le> b" "b < 0xF0" by (simp_all add: seqSize_def split: if_splits)
    have m: "b mod 16 = b - 14 * 16" using r by (intro mod_window) simp_all
    have v: "128 \<le> b mod 16 * 4096 + (p1 mod 64) * 64 + x"
      if p: "acceptLo b \<le> p1" "p1 \<le> acceptHi b" for p1 x
    proof (cases "b = 0xE0")
      case True
      then have "160 \<le> p1" "p1 \<le> 191" using p by (simp_all add: acceptLo_def acceptHi_def)
      then have "p1 mod 64 = p1 - 2 * 64" by (intro mod_window) simp_all
      then have "32 \<le> p1 mod 64" using \<open>160 \<le> p1\<close> by simp
      then have "2048 \<le> (p1 mod 64) * 64" by simp
      then show ?thesis by simp
    next
      case False
      then have "1 \<le> b mod 16" using m r by simp
      then have "4096 \<le> b mod 16 * 4096" by simp
      then show ?thesis by simp
    qed
    show ?thesis using 3 v[of "(b # bs) ! 1"]
      by (simp add: DecodeRune_def RuneError_def not_less)
  next
    case 4
    then have r: "0xF0 \<le> b" "b < 0xF5" by (simp_all add: seqSize_def split: if_splits)
    have m: "b mod 8 = b - 30 * 8" using r by (intro mod_window) simp_all
    have v: "128 \<le> b mod 8 * 262144 + (p1 mod 64) * 4096 + y + x"
      if p: "acceptLo b \<le> p1" "p1 \<le> acceptHi b" for p1 x y
    proof (cases "b = 0xF0")
      case True
      then have "144 \<le> p1" "p1 \<le> 191" using p by (simp_all add: acceptLo_def acceptHi_def)
      then have "p1 mod 64 = p1 - 2 * 64" by (intro mod_window) simp_all
      then have "16 \<le> p1 mod 64" using \<open>144 \<le> p1\<close> by simp
      then have "65536 \<le> (p1 mod 64) * 4096" by simp
      then show ?thesis by simp
    next
      case False
      then have "1 \<le> b mod 8" using m r by simp
      then have "262144 \<le> b mod 8 * 262144" by simp
      then show ?thesis by simp
    qed
    show ?thesis using 4 v[of "(b # bs) ! 1"]
      by (simp add: DecodeRune_def RuneError_def not_less)
  qed
qed

lemma DecodeRune_underscore:
  assumes "fst (DecodeRune (b # bs)) = 0x5F"
  shows "b = 0x5F"
proof (cases "seqSize b = 1")
  case True
  then show ?thesis using assms by (simp add: DecodeRune_def)
next
  case False
  then show ?thesis using DecodeRune_ge[OF False, of bs] assms by simp
qed

lemma runes_underscore: "0x5F \<in> set (runes bs) \<Longrightarrow> 0x5F \<in> set bs"
proof (induction bs rule: runes.induct)
  case 1
  then show ?case by simp
next
  case (2 b bs)
  from "2.prems" consider "fst (DecodeRune (b # bs)) = 0x5F"
    | "0x5F \<in> set (runes (drop (snd (DecodeRune (b # bs))) (b # bs)))"
    by auto
  then show ?case
  proof cases
    case 1
    then show ?thesis using DecodeRune_underscore by simp
  next
    case 2
    then have "0x5F \<in> set (drop (snd (DecodeRune (b # bs))) (b # bs))"
      using "2.IH" by simp
    then show ?thesis by (rule in_set_dropD)
  qed
qed

lemma length_runes: "length (runes bs) \<le> length bs"
proof (induction bs rule: runes.induct)
  case 1
  then show ?case by simp
next
  case (2 b bs)
  have "0 < snd (DecodeRune (b # bs))" by (simp add: DecodeRune_def)
  then have "length (drop (snd (DecodeRune (b # bs))) (b # bs)) < length (b # bs)"
    by simp
  then show ?case using "2.IH" by simp
qed

lemma underscore_char: "0x5F \<in> set (bytes s) \<Longrightarrow> CHR ''_'' \<in> set s"
proof -
  assume "0x5F \<in> set (bytes s)"
  then obtain c where c: "c \<in> set s" "of_char c = (0x5F :: nat)"
    by (auto simp: bytes_def)
  have "char_of (of_char c :: nat) = c" by simp
  then have "c = char_of (0x5F :: nat)" using c(2) by simp
  also have "\<dots> = CHR ''_''" by (simp add: char_of_eq_iff)
  finally show ?thesis using c(1) by simp
qed

text \<open>
  Claim C3, as stated, fails: the string \<open>ab_c\<close> is shorter than 5 characters and its
  second token has one character, yet it parses, to \<open>("ab", "c")\<close>: a width in a format
  of \<open>Sscanf\<close> is a maximum.
\<close>

theorem parser_accepts_short_counterexample:
  "length ''ab_c'' < 5 \<and> parseLocaleString ''ab_c'' = Inr (''ab'', ''c'')"
  by (simp add: scan_defs)

text \<open>
  Claim C3, amended. For every input string that lacks an underscore, or is shorter than
  4 characters (counted in bytes or in runes), or does not have the shape \<open>localeShape\<close>
  (after leading white space without newline, two characters that are not white space,
  an underscore and, after optional white space without newline, at least one more
  character that is not white space, all within the scanner's limit), the parser
  returns an error, and \<open>AddLocale\<close>, \<open>SetPreferedLocale\<close> and \<open>GetFromLocale\<close> return that
  error and leave the state unchanged. The inputs left out are exactly those that parse
  (lemma \<open>parser_accepts\<close> below).
\<close>

theorem parser_rejects:
  assumes "CHR ''_'' \<notin> set locale \<or> length locale < 4 \<or> length (runes (bytes locale)) < 4
           \<or> \<not> localeShape (runes (bytes locale))"
  shows "\<exists>e. parseLocaleString locale = Inl e
           \<and> AddLocale locale entries s = Returned (Some e, s)
           \<and> SetPreferedLocale locale s = (Some e, s)
           \<and> GetFromLocale ord key locale s = ((key, Some e), s)"
proof -
  have ns: "\<not> localeShape (runes (bytes locale))"
  proof
    assume sh: "localeShape (runes (bytes locale))"
    have u: "0x5F \<in> set (runes (bytes locale))" and l: "4 \<le> length (runes (bytes locale))"
      using localeShape_underscore[OF sh] by simp_all
    have "CHR ''_'' \<in> set locale" using u runes_underscore underscore_char by blast
    moreover have "4 \<le> length locale"
      using l length_runes[of "bytes locale"] by (simp add: bytes_def)
    ultimately show False using assms sh l by auto
  qed
  obtain e where e: "parseLocaleString locale = Inl e"
  proof (cases "parseLocaleString locale")
    case (Inl e)
    then show ?thesis using that by simp
  next
    case (Inr p)
    then show ?thesis using parse_Inr_shape[of "locale" "fst p" "snd p"] ns by simp
  qed
  then show ?thesis
    by (simp add: AddLocale_def SetPreferedLocale_def GetFromLocale_def)
qed

lemma parse_ptBR: "parseLocaleString ''ptBR'' = Inl (errorString ''input does not match format'')"
  by (simp add: scan_defs)

lemma parse_a_b: "parseLocaleString ''a_b'' = Inl (errorString ''input does not match format'')"
  by (simp add: scan_defs)

lemma parse_newline:
  "parseLocaleString (CHR 0x0A # ''pt_BR'') = Inl (errorString ''unexpected newline'')"
  by (simp add: scan_defs)

theorem parser_rejects_witness:
  "GetFromLocale [''BR''] ''hello'' ''ptBR'' testingContext
     = ((''hello'', Some (errorString ''input does not match format'')), testingContext)
   \<and> AddLocale ''a_b'' None testingContext
     = Returned (Some (errorString ''input does not match format''), testingContext)
   \<and> SetPreferedLocale ''a_b'' testingContext
     = (Some (errorString ''input does not match format''), testingContext)
   \<and> SetPreferedLocale (CHR 0x0A # ''pt_BR'') testingContext
     = (Some (errorString ''unexpected newline''), testingContext)"
proof -
  have 1: "CHR ''_'' \<notin> set ''ptBR'' \<or> length ''ptBR'' < 4 \<or> length (runes (bytes ''ptBR'')) < 4
           \<or> \<not> localeShape (runes (bytes ''ptBR''))" by simp
  have 2: "CHR ''_'' \<notin> set ''a_b'' \<or> length ''a_b'' < 4 \<or> length (runes (bytes ''a_b'')) < 4
           \<or> \<not> localeShape (runes (bytes ''a_b''))" by simp
  have "\<not> localeShape (runes (bytes (CHR 0x0A # ''pt_BR'')))"
    by (simp add: bytes_def DecodeRune_def seqSize_def localeShape_def blank_def isSpace_def)
  then have 3: "CHR ''_'' \<notin> set (CHR 0x0A # ''pt_BR'') \<or> length (CHR 0x0A # ''pt_BR'') < 4
           \<or> length (runes (bytes (CHR 0x0A # ''pt_BR''))) < 4
           \<or> \<not> localeShape (runes (bytes (CHR 0x0A # ''pt_BR'')))" by blast
  show ?thesis
    using parser_rejects [OF 1, of None testingContext "[''BR'']" "''hello''"]
      parser_rejects [OF 2, of None testingContext "[''BR'']" "''hello''"]
      parser_rejects [OF 3, of None testingContext "[''BR'']" "''hello''"]
    by (auto simp: parse_ptBR parse_a_b parse_newline)
qed

section \<open>Parsing a well-formed locale string\<close>

lemma scanVerb2s_two:
  assumes "\<not> isSpace a" "\<not> isSpace b" "c + 2 \<le> hugeWid"
  shows "scanVerb2s c (a # b # rest) = Inr (runesToString [a, b], (c + 2, rest))"
proof -
  have lim: "min hugeWid (Suc (Suc c)) = Suc (Suc c)" "c < hugeWid" using assms(3) by simp_all
  have t: "readToken (c + 2) c (a # b # rest) = ([a, b], (c + 2, rest))"
    using assms(1,2) readToken_limit[of "c + 2" "c + 2" rest] by simp
  show ?thesis
    using assms(1) t
    by (simp del: SkipSpace.simps readToken.simps
        add: scanVerb2s_def SkipSpace_notSpace lim convertString_def notEOF_def token_def)
qed

lemma scanVerb2s_skip:
  assumes "c + length (takeWhile blank rs) < hugeWid"
    and "dropWhile blank rs = a # rest" "\<not> isSpace a"
  shows "scanVerb2s c rs = scanVerb2s (c + length (takeWhile blank rs)) (a # rest)"
proof -
  have "SkipSpace hugeWid c rs = Inr (c + length (takeWhile blank rs), a # rest)"
    using SkipSpace_blank[of c rs hugeWid] assms by simp
  then show ?thesis
    using assms(3)
    by (simp del: SkipSpace.simps add: scanVerb2s_def SkipSpace_notSpace)
qed

lemma scanVerb2s_some:
  assumes "\<not> isSpace a" "c < hugeWid"
  shows "\<exists>str st. scanVerb2s c (a # rest) = Inr (str, st)"
proof -
  have lim: "c < min hugeWid (c + 2)" using assms(2) by simp
  obtain buf st where t: "readToken (min hugeWid (c + 2)) c (a # rest) = (buf, st)"
    by (cases "readToken (min hugeWid (c + 2)) c (a # rest)")
  have "scanVerb2s c (a # rest) = Inr (runesToString buf, st)"
    using assms(1) lim t
    by (simp del: SkipSpace.simps readToken.simps
        add: scanVerb2s_def SkipSpace_notSpace convertString_def notEOF_def token_def)
  then show ?thesis by blast
qed

text \<open>The parser accepts exactly the inputs of the shape \<open>localeShape\<close>.\<close>

lemma parser_accepts:
  assumes "localeShape (runes (bytes locale))"
  shows "\<exists>lang local. parseLocaleString locale = Inr (lang, local)"
proof -
  define rs where "rs = runes (bytes locale)"
  define n1 where "n1 = length (takeWhile blank rs)"
  from assms obtain a b rest where d: "dropWhile blank rs = a # b # 0x5F # rest"
    "\<not> isSpace a" "\<not> isSpace b"
    by (auto simp: localeShape_def rs_def split: list.splits)
  define n2 where "n2 = length (takeWhile blank rest)"
  have sh: "case dropWhile blank rest of [] \<Rightarrow> False
            | c # _ \<Rightarrow> \<not> isSpace c \<and> n1 + 3 + n2 < hugeWid"
    using assms d(1) unfolding n1_def n2_def by (simp add: localeShape_def rs_def[symmetric])
  obtain c r3 where e1: "dropWhile blank rest = c # r3"
  proof (cases "dropWhile blank rest")
    case Nil
    then show ?thesis using sh by (simp del: dropWhile_eq_Nil_conv)
  next
    case (Cons c r3)
    then show ?thesis by (rule that)
  qed
  have e: "dropWhile blank rest = c # r3" "\<not> isSpace c" "n1 + 3 + n2 < hugeWid"
    using sh e1 by simp_all
  have "scanVerb2s 0 rs = scanVerb2s n1 (a # b # 0x5F # rest)"
    using scanVerb2s_skip[of 0 rs a "b # 0x5F # rest"] d e(3) by (simp add: n1_def)
  also have "\<dots> = Inr (runesToString [a, b], (n1 + 2, 0x5F # rest))"
    using scanVerb2s_two[OF d(2,3), of n1] e(3) by simp
  finally have 1: "scanVerb2s 0 rs = Inr (runesToString [a, b], (n1 + 2, 0x5F # rest))" .
  have 2: "advanceUnderscore (n1 + 2) (0x5F # rest) = Inr (n1 + 3, rest)"
    using e(3) by (simp add: advanceUnderscore_def)
  have "scanVerb2s (n1 + 3) rest = scanVerb2s (n1 + 3 + n2) (c # r3)"
    using scanVerb2s_skip[of "n1 + 3" rest c r3] e by (simp add: n2_def)
  moreover obtain str st where "scanVerb2s (n1 + 3 + n2) (c # r3) = Inr (str, st)"
    using scanVerb2s_some[OF e(2), of "n1 + 3 + n2" r3] e(3) by blast
  ultimately have 3: "scanVerb2s (n1 + 3) rest = Inr (str, st)" by simp
  have "parseLocaleString locale = Inr (runesToString [a, b], str)"
    using 1 2 3 by (simp add: parseLocaleString_def Sscanf_def rs_def[symmetric])
  then show ?thesis by blast
qed

lemma parse_runes:
  assumes "runes (bytes locale) = a # b # 0x5F # c # d # rest"
    and "\<not> isSpace a" "\<not> isSpace b" "\<not> isSpace c" "\<not> isSpace d"
  shows "parseLocaleString locale = Inr (runesToString [a, b], runesToString [c, d])"
proof -
  have 1: "scanVerb2s 0 (a # b # 0x5F # c # d # rest)
      = Inr (runesToString [a, b], (2, 0x5F # c # d # rest))"
    using scanVerb2s_two[OF assms(2,3), of 0] by (simp add: hugeWid_def)
  have 2: "advanceUnderscore 2 (0x5F # c # d # rest) = Inr (3, c # d # rest)"
    by (simp add: advanceUnderscore_def hugeWid_def)
  have 3: "scanVerb2s 3 (c # d # rest) = Inr (runesToString [c, d], (5, rest))"
    using scanVerb2s_two[OF assms(4,5), of 3] by (simp add: hugeWid_def)
  show ?thesis
    by (simp add: parseLocaleString_def Sscanf_def assms(1) 1 2 3)
qed

lemma bytes_append: "bytes (xs @ ys) = bytes xs @ bytes ys"
  by (simp add: bytes_def)

lemma bytes_runesToString: "bytes (runesToString rs) = concat (map AppendRune rs)"
proof -
  have "\<forall>x \<in> set (concat (map AppendRune rs)). x < 256"
    using AppendRune_bytes by auto
  then have "map (\<lambda>x. x mod 256) (concat (map AppendRune rs)) = concat (map AppendRune rs)"
    by (intro map_idI) (simp del: set_concat)
  then show ?thesis by (simp add: bytes_def runesToString_def comp_def)
qed

lemma runes_locale:
  assumes "ValidRune a" "ValidRune b" "ValidRune c" "ValidRune d"
  shows "runes (bytes (runesToString [a, b] @ ''_'' @ runesToString [c, d] @ sfx))
           = a # b # 0x5F # c # d # runes (bytes sfx)"
proof -
  have u: "bytes ''_'' = [0x5F]" by (simp add: bytes_def)
  have r: "runes (0x5F # xs) = 0x5F # runes xs" for xs
    by (simp add: DecodeRune_1)
  have "bytes (runesToString [a, b] @ ''_'' @ runesToString [c, d] @ sfx)
      = AppendRune a @ AppendRune b @ 0x5F # AppendRune c @ AppendRune d @ bytes sfx"
    by (simp only: bytes_append bytes_runesToString u) simp
  then show ?thesis
    by (simp only: runes_AppendRune[OF assms(1)] runes_AppendRune[OF assms(2)]
        runes_AppendRune[OF assms(3)] runes_AppendRune[OF assms(4)] r)
qed

text \<open>
  Claim C4, as stated, fails: with the 2-character language code \<open>"a "\<close>, whose second
  character is a space, parsing \<open>"a _BR"\<close> fails.
\<close>

theorem parse_round_trip_counterexample:
  "length ''a '' = 2 \<and> length ''BR'' = 2
   \<and> parseLocaleString (''a '' @ ''_'' @ ''BR'') = Inl (errorString ''input does not match format'')"
  by (simp add: scan_defs)

text \<open>
  Claim C4, amended. For every language code and every region code that are each the
  UTF-8 encoding of two characters, none of them white space, parsing \<open>L_R\<close> gives
  \<open>(L, R)\<close>, and so does parsing \<open>L_R.UTF-8\<close>.
\<close>

theorem parse_round_trip:
  assumes "ValidRune a" "ValidRune b" "ValidRune c" "ValidRune d"
    and "\<not> isSpace a" "\<not> isSpace b" "\<not> isSpace c" "\<not> isSpace d"
  shows "parseLocaleString (runesToString [a, b] @ ''_'' @ runesToString [c, d])
           = Inr (runesToString [a, b], runesToString [c, d])
       \<and> parseLocaleString (runesToString [a, b] @ ''_'' @ runesToString [c, d] @ ''.UTF-8'')
           = Inr (runesToString [a, b], runesToString [c, d])"
proof -
  have 1: "parseLocaleString (runesToString [a, b] @ ''_'' @ runesToString [c, d] @ sfx)
           = Inr (runesToString [a, b], runesToString [c, d])" for sfx
    using parse_runes[OF runes_locale[OF assms(1-4), of sfx] assms(5-8)] .
  show ?thesis using 1[of "[]"] 1[of "''.UTF-8''"] by simp
qed

theorem parse_round_trip_witness:
  "parseLocaleString ''pt_BR'' = Inr (''pt'', ''BR'')
   \<and> parseLocaleString ''pt_BR.UTF-8'' = Inr (''pt'', ''BR'')
   \<and> parseLocaleString (map char_of [0xC3, 0xA9, 0xC3, 0xA9 :: nat] @ ''_BR'')
       = Inr (map char_of [0xC3, 0xA9, 0xC3, 0xA9 :: nat], ''BR'')"
proof -
  have v: "ValidRune 0x70" "ValidRune 0x74" "ValidRune 0x42" "ValidRune 0x52" "ValidRune 0xE9"
    by (simp_all add: ValidRune_def MaxRune_def)
  have s: "\<not> isSpace 0x70" "\<not> isSpace 0x74" "\<not> isSpace 0x42" "\<not> isSpace 0x52" "\<not> isSpace 0xE9"
    by (simp_all add: isSpace_def)
  have pt: "runesToString [0x70, 0x74] = ''pt''"
    by (simp add: runesToString_def AppendRune_def char_of_eq_iff)
  have br: "runesToString [0x42, 0x52] = ''BR''"
    by (simp add: runesToString_def AppendRune_def char_of_eq_iff)
  have ee: "runesToString [0xE9, 0xE9] = map char_of [0xC3, 0xA9, 0xC3, 0xA9 :: nat]"
    by (simp add: runesToString_def AppendRune_def)
  show ?thesis
    using parse_round_trip [OF v(1) v(2) v(3) v(4) s(1) s(2) s(3) s(4)]
      parse_round_trip [OF v(5) v(5) v(3) v(4) s(5) s(5) s(3) s(4)]
    by (simp add: pt br ee)
qed

section \<open>The errors of the parser\<close>

lemma SkipSpace_Inl:
  "SkipSpace lim c rs = Inl e \<Longrightarrow> e = errorString ''unexpected newline''"
  by (induction lim c rs rule: SkipSpace.induct) (auto split: if_splits)

lemma scanVerb2s_Inl:
  "scanVerb2s c rs = Inl e \<Longrightarrow> e = errorString ''unexpected newline'' \<or> e = EOF"
  by (auto simp del: SkipSpace.simps
      simp: scanVerb2s_def convertString_def token_def
      split: sum.splits prod.splits if_splits dest: SkipSpace_Inl)

lemma advanceUnderscore_Inl:
  "advanceUnderscore c rs = Inl e \<Longrightarrow>
     e = ErrUnexpectedEOF \<or> e = errorString ''input does not match format''"
  by (auto simp: advanceUnderscore_def split: if_splits list.splits)

lemma parse_error_kinds:
  assumes "parseLocaleString locale = Inl e"
  shows "e = EOF \<or> e = ErrUnexpectedEOF \<or> e = errorString ''unexpected newline''
         \<or> e = errorString ''input does not match format''"
  using assms
  by (auto simp: parseLocaleString_def Sscanf_def
      split: sum.splits prod.splits option.splits if_splits
      dest: scanVerb2s_Inl advanceUnderscore_Inl)

text \<open>
  Claim C8 asks that the error of a failed parse echoes the input. On the input \<open>abc\<close>
  the parser returns the error of \<open>Sscanf\<close>, whose message is
  \<open>input does not match format\<close>: the input is no part of it.
\<close>

theorem parse_error_not_echoed:
  "parseLocaleString ''abc'' = Inl (errorString ''input does not match format'')
   \<and> \<not> sublist ''abc'' (Error (errorString ''input does not match format''))"
  by (simp add: parse_abc sublist_Cons_right prefix_Cons)

section \<open>The contexts of the tests\<close>

lemma testingContext_reached:
  "AddLocale ''pt_BR.UTF-8'' (Some [''hello'' \<mapsto> ''ola'']) (Init emptyContext) = Returned (None, testingContext)"
  by (simp add: AddLocale_def parse_pt_BR_UTF8 Init_def emptyContext_def testingContext_def indexLanguages_def)

lemma preferedContext_reached:
  "SetPreferedLocale ''pt_BR'' testingContext = (None, preferedContext)"
  by (simp add: SetPreferedLocale_def parse_pt_BR testingContext_def preferedContext_def
      indexLanguages_def indexLanguage_def indexObj_def Let_def)

section \<open>The read operations\<close>

lemma tableText_absent: "m k = None \<Longrightarrow> tableText m text k = []"
  by (simp add: tableText_def indexObj_def indexLocale_def)

lemma tableText_present: "m k = Some l \<Longrightarrow> tableText m text k = indexLocale l text"
  by (simp add: tableText_def indexObj_def)

lemma rangeFirst_None:
  "rangeFirst m text ord = None \<Longrightarrow> k \<in> set ord \<Longrightarrow> tableText m text k = []"
  by (induction ord) (auto simp: tableText_absent tableText_present Let_def split: option.splits if_splits)

lemma rangeFirst_Some:
  "rangeFirst m text ord = Some v \<Longrightarrow>
   \<exists>i<length ord. v = tableText m text (ord ! i) \<and> v \<noteq> [] \<and> (\<forall>j<i. tableText m text (ord ! j) = [])"
proof (induction ord)
  case Nil
  then show ?case by simp
next
  case (Cons k ks)
  show ?case
  proof (cases "tableText m text k = []")
    case True
    then have "rangeFirst m text ks = Some v"
      using Cons.prems by (auto simp: tableText_present Let_def split: option.splits if_splits)
    then obtain i where i: "i < length ks" "v = tableText m text (ks ! i)" "v \<noteq> []"
      "\<forall>j<i. tableText m text (ks ! j) = []"
      using Cons.IH by blast
    have "\<forall>j<Suc i. tableText m text ((k # ks) ! j) = []"
      using True i(4) by (simp add: nth_Cons split: nat.splits)
    then show ?thesis
      using i by (intro exI[of _ "Suc i"]) simp
  next
    case False
    then have "v = tableText m text k"
      using Cons.prems by (auto simp: tableText_present tableText_absent Let_def split: option.splits if_splits)
    then show ?thesis
      using False by (intro exI[of _ 0]) simp
  qed
qed

text \<open>
  Claim C1. \<open>Get\<close> returns the key when no preferred Language Group is set; else the
  text of the preferred Translation Table when that table is set and holds a non-empty
  text for the key; else the first non-empty text for the key among the tables of the
  preferred Language Group, in the order \<open>ord\<close> in which the loop visits them; and the
  key when no table of the group holds a non-empty text. An empty stored text and an
  absent key are the same (\<open>indexLocale\<close> and \<open>tableText\<close> give the empty string for
  both).
\<close>

theorem Get_postcondition:
  "(preferedLang (ctx s) = None \<longrightarrow> fst (Get ord key s) = key)
   \<and> (preferedLang (ctx s) = Some a \<and> prefered (ctx s) \<noteq> None
        \<and> indexLocale (prefered (ctx s)) key \<noteq> []
      \<longrightarrow> fst (Get ord key s) = indexLocale (prefered (ctx s)) key)
   \<and> (preferedLang (ctx s) = Some a
        \<and> (prefered (ctx s) = None \<or> indexLocale (prefered (ctx s)) key = [])
        \<and> rangeOrder (mem s a) ord
      \<longrightarrow> (if \<exists>k \<in> dom (mem s a). tableText (mem s a) key k \<noteq> []
           then \<exists>i<length ord.
                  fst (Get ord key s) = tableText (mem s a) key (ord ! i)
                  \<and> tableText (mem s a) key (ord ! i) \<noteq> []
                  \<and> (\<forall>j<i. tableText (mem s a) key (ord ! j) = [])
           else fst (Get ord key s) = key))"
proof (intro conjI impI)
  assume "preferedLang (ctx s) = None"
  then show "fst (Get ord key s) = key" by (simp add: Get_def)
next
  assume "preferedLang (ctx s) = Some a \<and> prefered (ctx s) \<noteq> None
        \<and> indexLocale (prefered (ctx s)) key \<noteq> []"
  then show "fst (Get ord key s) = indexLocale (prefered (ctx s)) key"
    by (simp add: Get_def)
next
  assume h: "preferedLang (ctx s) = Some a
        \<and> (prefered (ctx s) = None \<or> indexLocale (prefered (ctx s)) key = [])
        \<and> rangeOrder (mem s a) ord"
  then have g: "fst (Get ord key s) =
      (case rangeFirst (mem s a) key ord of Some localTxt \<Rightarrow> localTxt | None \<Rightarrow> key)"
    by (auto simp: Get_def split: option.splits)
  have dom: "set ord = dom (mem s a)" using h by (simp add: rangeOrder_def)
  show "if \<exists>k \<in> dom (mem s a). tableText (mem s a) key k \<noteq> []
           then \<exists>i<length ord.
                  fst (Get ord key s) = tableText (mem s a) key (ord ! i)
                  \<and> tableText (mem s a) key (ord ! i) \<noteq> []
                  \<and> (\<forall>j<i. tableText (mem s a) key (ord ! j) = [])
           else fst (Get ord key s) = key"
  proof (cases "rangeFirst (mem s a) key ord")
    case None
    then have "\<forall>k \<in> dom (mem s a). tableText (mem s a) key k = []"
      using rangeFirst_None dom by blast
    then show ?thesis using None g by simp
  next
    case (Some v)
    from rangeFirst_Some[OF Some] obtain i where i: "i < length ord"
      "v = tableText (mem s a) key (ord ! i)" "v \<noteq> []"
      "\<forall>j<i. tableText (mem s a) key (ord ! j) = []" by blast
    have "ord ! i \<in> dom (mem s a)" using i(1) dom nth_mem by blast
    then have ex: "\<exists>k \<in> dom (mem s a). tableText (mem s a) key k \<noteq> []"
      using i(2,3) by blast
    have "fst (Get ord key s) = v" using g Some by simp
    then show ?thesis using ex i by auto
  qed
qed

theorem Get_postcondition_witness:
  "fst (Get [''BR''] ''hello'' preferedContext) = ''ola''
   \<and> fst (Get [''BR''] ''hello'' testingContext) = ''hello''
   \<and> fst (Get [''BR''] ''bye'' preferedContext) = ''bye''"
  using Get_postcondition [of preferedContext "[''BR'']" "''hello''" 0]
    Get_postcondition [of testingContext "[''BR'']" "''hello''" 0]
    Get_postcondition [of preferedContext "[''BR'']" "''bye''" 0]
  by (simp add: preferedContext_def testingContext_def indexLocale_def rangeOrder_def
      tableText_def indexObj_def)

lemma rangeFirst_result:
  assumes dom: "set ord = dom m"
    and r: "r = (case rangeFirst m key ord of Some v \<Rightarrow> v | None \<Rightarrow> key)"
  shows "if \<exists>k \<in> dom m. tableText m key k \<noteq> []
         then \<exists>i<length ord. r = tableText m key (ord ! i) \<and> tableText m key (ord ! i) \<noteq> []
                \<and> (\<forall>j<i. tableText m key (ord ! j) = [])
         else r = key"
proof (cases "rangeFirst m key ord")
  case None
  then have "\<forall>k \<in> dom m. tableText m key k = []"
    using rangeFirst_None dom by blast
  then show ?thesis using None r by simp
next
  case (Some v)
  from rangeFirst_Some[OF Some] obtain i where i: "i < length ord"
    "v = tableText m key (ord ! i)" "v \<noteq> []"
    "\<forall>j<i. tableText m key (ord ! j) = []" by blast
  have "ord ! i \<in> dom m" using i(1) dom nth_mem by blast
  then have ex: "\<exists>k \<in> dom m. tableText m key k \<noteq> []"
    using i(2,3) by blast
  have "r = v" using r Some by simp
  then show ?thesis using ex i by auto
qed

lemma nilRegion_reached:
  "AddLocale ''pt_PT'' None testingContext = Returned (None, nilRegion)"
  by (simp add: AddLocale_def parse_pt_PT testingContext_def nilRegion_def indexLanguages_def)

text \<open>
  Claim C2, as stated, fails: after \<open>AddLocale("pt_PT", nil)\<close> on the context of the
  tests the group of \<open>pt\<close> has an entry for the region \<open>PT\<close>, yet
  \<open>GetFromLocale("hello", "pt_PT")\<close> answers \<open>ola\<close> from the table of the sibling region
  \<open>BR\<close>: the code tests the table for \<open>nil\<close>, not the region for presence.
\<close>

theorem GetFromLocale_nil_table_counterexample:
  "AddLocale ''pt_PT'' None testingContext = Returned (None, nilRegion)
   \<and> parseLocaleString ''pt_PT'' = Inr (''pt'', ''PT'')
   \<and> indexLanguages (ctx nilRegion) ''pt'' = Some 0
   \<and> ''PT'' \<in> dom (mem nilRegion 0)
   \<and> rangeOrder (mem nilRegion 0) [''BR'', ''PT'']
   \<and> fst (GetFromLocale [''BR'', ''PT''] ''hello'' ''pt_PT'' nilRegion) = (''ola'', None)"
proof -
  have "fst (GetFromLocale [''BR'', ''PT''] ''hello'' ''pt_PT'' nilRegion) = (''ola'', None)"
    by (simp add: GetFromLocale_def parse_pt_PT nilRegion_def indexLanguages_def indexObj_def
        indexLocale_def)
  moreover have "indexLanguages (ctx nilRegion) ''pt'' = Some 0"
    by (simp add: nilRegion_def indexLanguages_def)
  moreover have "''PT'' \<in> dom (mem nilRegion 0)"
    by (simp add: nilRegion_def)
  moreover have "rangeOrder (mem nilRegion 0) [''BR'', ''PT'']"
    by (auto simp: nilRegion_def rangeOrder_def)
  ultimately show ?thesis using nilRegion_reached parse_pt_PT by simp
qed

text \<open>
  Claim C2, amended. When the locale string parses, \<open>GetFromLocale\<close> returns no error and:
  the key when the context has no Language Group for the language; the first non-empty
  text for the key among the tables of the group, in the order \<open>ord\<close> of the loop, or the
  key when there is none, when the group has no entry for the region or holds the \<open>nil\<close>
  table there; and the non-empty text of the region's table, or the key when that table
  has no text or an empty text for the key, when the group holds a table that is not
  \<open>nil\<close> for the region: the other tables of the group play no part in this last result.
\<close>

theorem GetFromLocale_cases:
  assumes "parseLocaleString locale = Inr (lang, local)"
  shows "(indexLanguages (ctx s) lang = None
           \<longrightarrow> fst (GetFromLocale ord key locale s) = (key, None))
   \<and> (indexLanguages (ctx s) lang = Some a
        \<and> (mem s a local = None \<or> mem s a local = Some None)
        \<and> rangeOrder (mem s a) ord
      \<longrightarrow> snd (fst (GetFromLocale ord key locale s)) = None
          \<and> (if \<exists>k \<in> dom (mem s a). tableText (mem s a) key k \<noteq> []
             then \<exists>i<length ord.
                    fst (fst (GetFromLocale ord key locale s)) = tableText (mem s a) key (ord ! i)
                    \<and> tableText (mem s a) key (ord ! i) \<noteq> []
                    \<and> (\<forall>j<i. tableText (mem s a) key (ord ! j) = [])
             else fst (fst (GetFromLocale ord key locale s)) = key))
   \<and> (indexLanguages (ctx s) lang = Some a \<and> mem s a local = Some (Some t)
      \<longrightarrow> fst (GetFromLocale ord key locale s)
            = (if indexLocale (Some t) key = [] then key else indexLocale (Some t) key, None))"
proof (intro conjI impI)
  assume "indexLanguages (ctx s) lang = None"
  then show "fst (GetFromLocale ord key locale s) = (key, None)"
    using assms by (simp add: GetFromLocale_def)
next
  assume h: "indexLanguages (ctx s) lang = Some a
        \<and> (mem s a local = None \<or> mem s a local = Some None)
        \<and> rangeOrder (mem s a) ord"
  then have io: "indexObj (mem s a) local = None" by (auto simp: indexObj_def)
  have g: "fst (GetFromLocale ord key locale s)
      = ((case rangeFirst (mem s a) key ord of Some v \<Rightarrow> v | None \<Rightarrow> key), None)"
    using assms h io by (simp add: GetFromLocale_def split: option.splits)
  then show "snd (fst (GetFromLocale ord key locale s)) = None" by simp
  have dom: "set ord = dom (mem s a)" using h by (simp add: rangeOrder_def)
  have r: "fst (fst (GetFromLocale ord key locale s))
      = (case rangeFirst (mem s a) key ord of Some v \<Rightarrow> v | None \<Rightarrow> key)"
    using g by simp
  show "if \<exists>k \<in> dom (mem s a). tableText (mem s a) key k \<noteq> []
             then \<exists>i<length ord.
                    fst (fst (GetFromLocale ord key locale s)) = tableText (mem s a) key (ord ! i)
                    \<and> tableText (mem s a) key (ord ! i) \<noteq> []
                    \<and> (\<forall>j<i. tableText (mem s a) key (ord ! j) = [])
             else fst (fst (GetFromLocale ord key locale s)) = key"
    by (rule rangeFirst_result[OF dom r])
next
  assume h: "indexLanguages (ctx s) lang = Some a \<and> mem s a local = Some (Some t)"
  then have "indexObj (mem s a) local = Some t" by (simp add: indexObj_def)
  then show "fst (GetFromLocale ord key locale s)
            = (if indexLocale (Some t) key = [] then key else indexLocale (Some t) key, None)"
    using assms h by (simp add: GetFromLocale_def)
qed

theorem GetFromLocale_cases_witness:
  "fst (GetFromLocale [''BR''] ''hello'' ''en_US'' testingContext) = (''hello'', None)
   \<and> fst (GetFromLocale [''BR''] ''hello'' ''pt_PT'' testingContext) = (''ola'', None)
   \<and> fst (GetFromLocale [''BR'', ''PT''] ''hello'' ''pt_PT'' nilRegion) = (''ola'', None)
   \<and> fst (GetFromLocale [''BR'', ''PT''] ''hello'' ''pt_PT'' twoRegions) = (''hello'', None)
   \<and> fst (GetFromLocale [''BR'', ''PT''] ''hello'' ''pt_BR'' twoRegions) = (''ola'', None)"
proof -
  have others:
    "fst (GetFromLocale [''BR''] ''hello'' ''en_US'' testingContext) = (''hello'', None)
     \<and> fst (GetFromLocale [''BR''] ''hello'' ''pt_PT'' testingContext) = (''ola'', None)
     \<and> fst (GetFromLocale [''BR'', ''PT''] ''hello'' ''pt_PT'' twoRegions) = (''hello'', None)
     \<and> fst (GetFromLocale [''BR'', ''PT''] ''hello'' ''pt_BR'' twoRegions) = (''ola'', None)"
    using GetFromLocale_cases [OF parse_en_US,
        where s = testingContext and ord = "[''BR'']" and key = "''hello''" and a = 0]
      GetFromLocale_cases [OF parse_pt_PT,
        where s = testingContext and ord = "[''BR'']" and key = "''hello''" and a = 0]
      GetFromLocale_cases [OF parse_pt_PT,
        where s = twoRegions and ord = "[''BR'', ''PT'']" and key = "''hello''" and a = 0
          and t = "[''bye'' \<mapsto> ''adeus'']"]
      GetFromLocale_cases [OF parse_pt_BR,
        where s = twoRegions and ord = "[''BR'', ''PT'']" and key = "''hello''" and a = 0
          and t = "[''hello'' \<mapsto> ''ola'']"]
    by (simp add: testingContext_def twoRegions_def indexLanguages_def indexObj_def
        rangeOrder_def tableText_def indexLocale_def prod_eq_iff)
  let ?m = "mem nilRegion 0"
  let ?r = "GetFromLocale [''BR'', ''PT''] ''hello'' ''pt_PT'' nilRegion"
  have pre: "indexLanguages (ctx nilRegion) ''pt'' = Some 0
      \<and> (?m ''PT'' = None \<or> ?m ''PT'' = Some None)
      \<and> rangeOrder ?m [''BR'', ''PT'']"
    by (auto simp: nilRegion_def indexLanguages_def rangeOrder_def)
  have br: "tableText ?m ''hello'' ''BR'' = ''ola''"
    by (simp add: nilRegion_def tableText_def indexObj_def indexLocale_def)
  have pt: "tableText ?m ''hello'' ''PT'' = []"
    by (simp add: nilRegion_def tableText_def indexObj_def indexLocale_def)
  have "''BR'' \<in> dom ?m" by (simp add: nilRegion_def)
  then have ex: "\<exists>k \<in> dom ?m. tableText ?m ''hello'' k \<noteq> []" using br by force
  note c = GetFromLocale_cases [OF parse_pt_PT, where s = nilRegion and a = 0
      and ord = "[''BR'', ''PT'']" and key = "''hello''", THEN conjunct2, THEN conjunct1,
      rule_format, OF pre]
  have e: "snd (fst ?r) = None" using c by simp
  have "\<exists>i<Suc (Suc 0). fst (fst ?r) = tableText ?m ''hello'' ([''BR'', ''PT''] ! i)
      \<and> tableText ?m ''hello'' ([''BR'', ''PT''] ! i) \<noteq> []"
    using c ex by auto
  then obtain i where i: "i < Suc (Suc 0)"
    "fst (fst ?r) = tableText ?m ''hello'' ([''BR'', ''PT''] ! i)"
    "tableText ?m ''hello'' ([''BR'', ''PT''] ! i) \<noteq> []"
    by blast
  have "i = 0 \<or> i = Suc 0" using i(1) by auto
  then have "i = 0" using i(3) pt by auto
  then have "fst (fst ?r) = ''ola''" using i(2) br by simp
  then have "fst ?r = (''ola'', None)" using e by (simp add: prod_eq_iff)
  then show ?thesis using others by simp
qed

text \<open>
  Claim C10. \<open>Get\<close> and \<open>GetFromLocale\<close> leave the state unchanged: the three fields of
  the context and the Language objects they refer to.
\<close>

theorem reads_leave_context_unchanged:
  "snd (Get ord key s) = s \<and> snd (GetFromLocale ord key locale s) = s"
  by (simp add: Get_def GetFromLocale_def split: option.splits sum.splits prod.splits)

section \<open>The mutating operations\<close>

text \<open>
  Claim C6. When the locale string does not parse, \<open>AddLocale\<close> and \<open>SetPreferedLocale\<close>
  return the parser's error and leave the whole state as it was.
\<close>

theorem parse_failure_atomic:
  assumes "parseLocaleString locale = Inl e"
  shows "AddLocale locale entries s = Returned (Some e, s)
         \<and> SetPreferedLocale locale s = (Some e, s)"
  using assms by (simp add: AddLocale_def SetPreferedLocale_def)

theorem parse_failure_atomic_witness:
  "AddLocale ''abc'' None preferedContext
     = Returned (Some (errorString ''input does not match format''), preferedContext)
   \<and> SetPreferedLocale ''abc'' preferedContext
     = (Some (errorString ''input does not match format''), preferedContext)"
  using parse_failure_atomic [OF parse_abc, of None preferedContext] by simp

lemma SetPreferedLocale_error_state:
  "fst (SetPreferedLocale locale s) \<noteq> None \<Longrightarrow> snd (SetPreferedLocale locale s) = s"
  by (auto simp: SetPreferedLocale_def Let_def split: sum.splits)

text \<open>
  Claim C9. \<open>AutoSetPreferedLocale\<close> calls \<open>SetPreferedLocale\<close> with the value of
  \<open>LC_ALL\<close>; when that call returns no error its result is returned, whatever \<open>LANG\<close>
  holds; when it returns an error, the result is that of \<open>SetPreferedLocale\<close> with the
  value of \<open>LANG\<close>, on the state the failed call left as it was. An unset or empty
  \<open>LC_ALL\<close> does not parse.
\<close>

theorem AutoSetPreferedLocale_order:
  "(fst (SetPreferedLocale (Getenv env ''LC_ALL'') s) = None
      \<longrightarrow> AutoSetPreferedLocale env s = SetPreferedLocale (Getenv env ''LC_ALL'') s)
   \<and> (fst (SetPreferedLocale (Getenv env ''LC_ALL'') s) \<noteq> None
      \<longrightarrow> AutoSetPreferedLocale env s = SetPreferedLocale (Getenv env ''LANG'') s)
   \<and> (env ''LC_ALL'' = None \<or> env ''LC_ALL'' = Some []
      \<longrightarrow> fst (SetPreferedLocale (Getenv env ''LC_ALL'') s) = Some EOF)"
proof (intro conjI impI)
  assume "fst (SetPreferedLocale (Getenv env ''LC_ALL'') s) = None"
  then show "AutoSetPreferedLocale env s = SetPreferedLocale (Getenv env ''LC_ALL'') s"
    by (cases "SetPreferedLocale (Getenv env ''LC_ALL'') s") (simp add: AutoSetPreferedLocale_def)
next
  assume f: "fst (SetPreferedLocale (Getenv env ''LC_ALL'') s) \<noteq> None"
  then have "snd (SetPreferedLocale (Getenv env ''LC_ALL'') s) = s"
    by (rule SetPreferedLocale_error_state)
  with f show "AutoSetPreferedLocale env s = SetPreferedLocale (Getenv env ''LANG'') s"
    by (cases "SetPreferedLocale (Getenv env ''LC_ALL'') s")
      (auto simp: AutoSetPreferedLocale_def)
next
  assume "env ''LC_ALL'' = None \<or> env ''LC_ALL'' = Some []"
  then have "Getenv env ''LC_ALL'' = []" by (auto simp: Getenv_def)
  then show "fst (SetPreferedLocale (Getenv env ''LC_ALL'') s) = Some EOF"
    by (simp add: SetPreferedLocale_def parse_empty)
qed

theorem AutoSetPreferedLocale_order_witness:
  "AutoSetPreferedLocale [''LANG'' \<mapsto> ''pt_BR''] testingContext = (None, preferedContext)
   \<and> AutoSetPreferedLocale [''LC_ALL'' \<mapsto> ''pt_BR'', ''LANG'' \<mapsto> ''abc''] testingContext
       = (None, preferedContext)"
  using AutoSetPreferedLocale_order [of "[''LANG'' \<mapsto> ''pt_BR'']" testingContext]
    AutoSetPreferedLocale_order [of "[''LC_ALL'' \<mapsto> ''pt_BR'', ''LANG'' \<mapsto> ''abc'']" testingContext]
  by (simp add: Getenv_def preferedContext_reached)

text \<open>
  Claim C5, as stated, fails: after \<open>SetPreferedLocale("pt_BR")\<close> on the context of the
  tests, \<open>SetPreferedLocale("en_US")\<close> returns no error and leaves \<open>preferedLang\<close> \<open>nil\<close>,
  but \<open>prefered\<close> still holds the table of \<open>pt_BR\<close>.
\<close>

theorem SetPreferedLocale_missing_language_counterexample:
  "parseLocaleString ''en_US'' = Inr (''en'', ''US'')
   \<and> indexLanguages (ctx preferedContext) ''en'' = None
   \<and> fst (SetPreferedLocale ''en_US'' preferedContext) = None
   \<and> preferedLang (ctx (snd (SetPreferedLocale ''en_US'' preferedContext))) = None
   \<and> prefered (ctx (snd (SetPreferedLocale ''en_US'' preferedContext))) \<noteq> None"
  by (simp add: parse_en_US SetPreferedLocale_def preferedContext_def indexLanguages_def Let_def)

text \<open>
  Claim C5, amended. After a call of \<open>SetPreferedLocale\<close> whose locale string parses to
  a language without Language Group, the preferred Language Group is absent and every
  other part of the state, the preferred Translation Table included, is as before the
  call (the assignment to \<open>prefered\<close> is guarded by \<open>preferedLang != nil\<close>); \<open>Get\<close> then
  returns every key unchanged.
\<close>

theorem SetPreferedLocale_missing_language:
  assumes "parseLocaleString locale = Inr (lang, local)"
    and "indexLanguages (ctx s) lang = None"
  shows "SetPreferedLocale locale s = (None, s\<lparr>ctx := (ctx s)\<lparr>preferedLang := None\<rparr>\<rparr>)
    \<and> preferedLang (ctx (snd (SetPreferedLocale locale s))) = None
    \<and> prefered (ctx (snd (SetPreferedLocale locale s))) = prefered (ctx s)
    \<and> fst (Get ord key (snd (SetPreferedLocale locale s))) = key"
  using assms by (simp add: SetPreferedLocale_def Let_def Get_def)

theorem SetPreferedLocale_missing_language_witness:
  "preferedLang (ctx (snd (SetPreferedLocale ''en_US'' preferedContext))) = None
   \<and> prefered (ctx (snd (SetPreferedLocale ''en_US'' preferedContext)))
       = Some [''hello'' \<mapsto> ''ola'']
   \<and> fst (Get [] ''hello'' (snd (SetPreferedLocale ''en_US'' preferedContext))) = ''hello''"
proof -
  have l: "indexLanguages (ctx preferedContext) ''en'' = None"
    by (simp add: preferedContext_def indexLanguages_def)
  have p: "prefered (ctx preferedContext) = Some [''hello'' \<mapsto> ''ola'']"
    by (simp add: preferedContext_def)
  show ?thesis
    using SetPreferedLocale_missing_language [OF parse_en_US l, of "[]" "''hello''",
        THEN conjunct2] p
    by simp
qed

text \<open>
  Claim C7. When the locale string parses: if the language has a Language Group, \<open>AddLocale\<close>
  returns no error and stores \<open>entries\<close> as the table of the region in that group, in
  place of any table stored there before, so the text of a key in that table is the text
  \<open>entries\<close> has for it (empty when \<open>entries\<close> has none, whatever the table before held)
  and \<open>GetFromLocale\<close> with the same locale string answers from \<open>entries\<close> alone; the
  tables of the other regions and the context stay as they were. If the language has no
  group, in an initialised context, a new group is stored for it whose only table is
  \<open>entries\<close> at the region.
\<close>

theorem AddLocale_overwrites:
  assumes "parseLocaleString locale = Inr (lang, local)"
  shows "(indexLanguages (ctx s) lang = Some a
      \<longrightarrow> (\<exists>s'. AddLocale locale entries s = Returned (None, s')
            \<and> ctx s' = ctx s
            \<and> mem s' a local = Some entries
            \<and> (\<forall>r. r \<noteq> local \<longrightarrow> mem s' a r = mem s a r)
            \<and> (\<forall>key. tableText (mem s' a) key local = indexLocale entries key)
            \<and> (\<forall>key t. entries = Some t \<longrightarrow>
                  fst (GetFromLocale ord key locale s')
                    = (if indexLocale entries key = [] then key else indexLocale entries key,
                       None))))
   \<and> (indexLanguages (ctx s) lang = None \<and> languages (ctx s) = Some m
      \<longrightarrow> (\<exists>s' a'. AddLocale locale entries s = Returned (None, s')
            \<and> indexLanguages (ctx s') lang = Some a'
            \<and> mem s' a' = [local \<mapsto> entries]
            \<and> languages (ctx s') = Some (m(lang \<mapsto> Some a'))))"
proof (intro conjI impI)
  assume h: "indexLanguages (ctx s) lang = Some a"
  let ?s' = "s\<lparr>mem := (mem s)(a := (mem s a)(local \<mapsto> entries))\<rparr>"
  have "AddLocale locale entries s = Returned (None, ?s')"
    using assms h by (simp add: AddLocale_def)
  moreover have "ctx ?s' = ctx s" by simp
  moreover have "mem ?s' a local = Some entries" by simp
  moreover have "\<forall>r. r \<noteq> local \<longrightarrow> mem ?s' a r = mem s a r" by simp
  moreover have "\<forall>key. tableText (mem ?s' a) key local = indexLocale entries key"
    by (simp add: tableText_def indexObj_def)
  moreover have "\<forall>key t. entries = Some t \<longrightarrow>
                  fst (GetFromLocale ord key locale ?s')
                    = (if indexLocale entries key = [] then key else indexLocale entries key,
                       None)"
    using assms h by (simp add: GetFromLocale_def indexObj_def)
  ultimately show "\<exists>s'. AddLocale locale entries s = Returned (None, s')
            \<and> ctx s' = ctx s
            \<and> mem s' a local = Some entries
            \<and> (\<forall>r. r \<noteq> local \<longrightarrow> mem s' a r = mem s a r)
            \<and> (\<forall>key. tableText (mem s' a) key local = indexLocale entries key)
            \<and> (\<forall>key t. entries = Some t \<longrightarrow>
                  fst (GetFromLocale ord key locale s')
                    = (if indexLocale entries key = [] then key else indexLocale entries key,
                       None))"
    by blast
next
  assume h: "indexLanguages (ctx s) lang = None \<and> languages (ctx s) = Some m"
  let ?s' = "s\<lparr>ctx := (ctx s)\<lparr>languages := Some (m(lang \<mapsto> Some (fresh s)))\<rparr>,
                        mem := (mem s)(fresh s := [local \<mapsto> entries]),
                        fresh := fresh s + 1\<rparr>"
  have "AddLocale locale entries s = Returned (None, ?s')"
    using assms h by (simp add: AddLocale_def)
  moreover have "indexLanguages (ctx ?s') lang = Some (fresh s)"
    by (simp add: indexLanguages_def)
  moreover have "mem ?s' (fresh s) = [local \<mapsto> entries]" by simp
  moreover have "languages (ctx ?s') = Some (m(lang \<mapsto> Some (fresh s)))" by simp
  ultimately show "\<exists>s' a'. AddLocale locale entries s = Returned (None, s')
            \<and> indexLanguages (ctx s') lang = Some a'
            \<and> mem s' a' = [local \<mapsto> entries]
            \<and> languages (ctx s') = Some (m(lang \<mapsto> Some a'))"
    by blast
qed


theorem AddLocale_overwrites_witness:
  "(\<exists>s'. AddLocale ''pt_BR'' (Some [''bye'' \<mapsto> ''tchau'']) testingContext = Returned (None, s')
      \<and> tableText (mem s' 0) ''hello'' ''BR'' = []
      \<and> tableText (mem s' 0) ''bye'' ''BR'' = ''tchau''
      \<and> fst (GetFromLocale [''BR''] ''hello'' ''pt_BR'' s') = (''hello'', None))
   \<and> (\<exists>s' a'. AddLocale ''en_US'' (Some [''bye'' \<mapsto> ''bye'']) testingContext = Returned (None, s')
      \<and> indexLanguages (ctx s') ''en'' = Some a'
      \<and> mem s' a' = [''US'' \<mapsto> Some [''bye'' \<mapsto> ''bye'']])"
proof -
  have pt: "indexLanguages (ctx testingContext) ''pt'' = Some 0"
    by (simp add: testingContext_def indexLanguages_def)
  have en: "indexLanguages (ctx testingContext) ''en'' = None
      \<and> languages (ctx testingContext) = Some [''pt'' \<mapsto> Some 0]"
    by (simp add: testingContext_def indexLanguages_def)
  have v: "indexLocale (Some [''bye'' \<mapsto> ''tchau'']) ''hello'' = []"
    "indexLocale (Some [''bye'' \<mapsto> ''tchau'']) ''bye'' = ''tchau''"
    by (simp_all add: indexLocale_def)
  from AddLocale_overwrites [OF parse_pt_BR, where s = testingContext and a = 0
      and entries = "Some [''bye'' \<mapsto> ''tchau'']" and ord = "[''BR'']", THEN conjunct1] pt
  obtain s' where s': "AddLocale ''pt_BR'' (Some [''bye'' \<mapsto> ''tchau'']) testingContext
        = Returned (None, s')"
    "\<forall>key. tableText (mem s' 0) key ''BR'' = indexLocale (Some [''bye'' \<mapsto> ''tchau'']) key"
    "\<forall>key t. Some [''bye'' \<mapsto> ''tchau''] = Some t \<longrightarrow>
        fst (GetFromLocale [''BR''] key ''pt_BR'' s')
          = (if indexLocale (Some [''bye'' \<mapsto> ''tchau'']) key = [] then key
             else indexLocale (Some [''bye'' \<mapsto> ''tchau'']) key, None)"
    by blast
  have a: "\<exists>s'. AddLocale ''pt_BR'' (Some [''bye'' \<mapsto> ''tchau'']) testingContext = Returned (None, s')
      \<and> tableText (mem s' 0) ''hello'' ''BR'' = []
      \<and> tableText (mem s' 0) ''bye'' ''BR'' = ''tchau''
      \<and> fst (GetFromLocale [''BR''] ''hello'' ''pt_BR'' s') = (''hello'', None)"
    using s' v by (intro exI[of _ s']) simp
  have b: "\<exists>s' a'. AddLocale ''en_US'' (Some [''bye'' \<mapsto> ''bye'']) testingContext = Returned (None, s')
      \<and> indexLanguages (ctx s') ''en'' = Some a'
      \<and> mem s' a' = [''US'' \<mapsto> Some [''bye'' \<mapsto> ''bye'']]"
    using AddLocale_overwrites [OF parse_en_US, where s = testingContext
      and entries = "Some [''bye'' \<mapsto> ''bye'']" and m = "[''pt'' \<mapsto> Some 0]",
      THEN conjunct2] en
    by blast
  show ?thesis using a b by blast
qed

text \<open>On a context without \<open>Init\<close>, \<open>AddLocale\<close> with a locale string that parses does
  not return: the assignment to the \<open>nil\<close> map panics.\<close>

lemma AddLocale_uninitialised:
  assumes "parseLocaleString locale = Inr (lang, local)"
    and "languages (ctx s) = None"
  shows "AddLocale locale entries s = Panicked ''assignment to entry in nil map''"
  using assms by (simp add: AddLocale_def indexLanguages_def)

end
